theory Spec2Isabelle
  imports Complex_Main "HOL-Library.AList" "HOL-Library.Multiset"
begin

section \<open>Data model\<close>

text \<open>
  The worker-side subtask execution core of Mars:
  \<^verbatim>\<open>mars/services/scheduling/worker/execution.py\<close> (the coordinator and the memory
  estimator) and \<^verbatim>\<open>mars/services/subtask/worker/processor.py\<close> (the processor).
  Python names that start with an underscore lose it (\<open>_retry_run\<close> is \<open>retry_run\<close>).
\<close>

subsection \<open>Operands, chunks, chunk graphs\<close>

datatype op_type = Fetch | FetchShuffle | Compute

text \<open>
  An operand: its key, its variant, the keys of its output chunks and its
  \<open>retryable\<close> attribute (\<open>None\<close> when the operand has no such attribute, which
  \<^verbatim>\<open>getattr(chunk.op, "retryable", True)\<close> reads as true).
\<close>

record operand =
  op_key :: string
  op_type :: op_type
  outputs :: "string list"
  op_retryable :: "bool option"

record chunk =
  key :: string
  op :: operand

text \<open>
  A chunk graph: \<open>nodes\<close> is the order of \<^verbatim>\<open>for n in graph\<close>, \<open>topological\<close> the order
  of \<^verbatim>\<open>graph.topological_iter()\<close>, \<open>successors\<close> is \<^verbatim>\<open>graph.iter_successors\<close>.
\<close>

record chunk_graph =
  nodes :: "chunk list"
  topological :: "chunk list"
  successors :: "chunk \<Rightarrow> chunk list"
  result_chunks :: "chunk list"

record subtask =
  subtask_id :: string
  session_id :: string
  chunk_graph :: chunk_graph
  pure_depend_keys :: "string set"
  retryable :: bool

subsection \<open>Exceptions\<close>

type_synonym traceback = "string list"

text \<open>
  The classes the code tells apart. \<open>CancelledError\<close> is \<^verbatim>\<open>asyncio.CancelledError\<close>, a
  \<^verbatim>\<open>BaseException\<close> that is no \<^verbatim>\<open>Exception\<close> (the code uses \<^verbatim>\<open>asyncio.to_thread\<close>, so
  Python is 3.9 or later); \<open>TimeoutError\<close> is \<^verbatim>\<open>asyncio.TimeoutError\<close>;
  \<open>OtherException\<close> is any other subclass of \<^verbatim>\<open>Exception\<close>, \<open>OtherBaseException\<close> any
  other \<^verbatim>\<open>BaseException\<close> (\<^verbatim>\<open>KeyboardInterrupt\<close>, \<^verbatim>\<open>SystemExit\<close>).
\<close>

datatype exc_class =
  OSError | MarsError | CancelledError | TimeoutError | AssertionError | KeyError
  | ZeroDivisionError | OtherException | OtherBaseException

text \<open>
  The text of a wrapper's message, kept as the values the f-string interpolates
  (the wrapped error itself is the wrapper's second argument).
\<close>

datatype message =
  ExceedMaxRerunMsg int int string
  | UnhandledMsg string int int
  | UnretryableMsg string "operand list"

text \<open>
  An exception value: a plain exception with its class, text and \<^verbatim>\<open>__traceback__\<close>; an
  \<^verbatim>\<open>ExecutionError\<close> with its \<^verbatim>\<open>nested_error\<close>; the result of \<^verbatim>\<open>wrap_exception\<close>.
\<close>

datatype exc =
  Exc exc_class string traceback
  | ExecutionError exc traceback
  | Wrapped string exc message

text \<open>
  Modelled from the spec: \<^verbatim>\<open>wrap_exception\<close> of \<^verbatim>\<open>mars/utils.py\<close> is not among the
  sources. The spec says an error is "wrapped as" the given name; the wrapper keeps the
  wrapped error, the name and the message, and it is an instance of the wrapped error's
  class with the wrapped error's attributes.
\<close>

definition wrap_exception :: "exc \<Rightarrow> string \<Rightarrow> message \<Rightarrow> exc" where
  "wrap_exception ex wrap_name msg = Wrapped wrap_name ex msg"

fun is_ExecutionError :: "exc \<Rightarrow> bool" where
  "is_ExecutionError (Exc c m tb) = False"
| "is_ExecutionError (ExecutionError n tb) = True"
| "is_ExecutionError (Wrapped w e m) = is_ExecutionError e"

fun class_is :: "exc_class \<Rightarrow> exc \<Rightarrow> bool" where
  "class_is c (Exc c' m tb) = (c' = c)"
| "class_is c (ExecutionError n tb) = False"
| "class_is c (Wrapped w e m) = class_is c e"

text \<open>\<^verbatim>\<open>isinstance(ex, (OSError, MarsError))\<close>\<close>

definition is_OSError_or_MarsError :: "exc \<Rightarrow> bool" where
  "is_OSError_or_MarsError ex = (class_is OSError ex \<or> class_is MarsError ex)"

text \<open>\<^verbatim>\<open>isinstance(ex, asyncio.CancelledError)\<close>\<close>

definition is_CancelledError :: "exc \<Rightarrow> bool" where
  "is_CancelledError ex = class_is CancelledError ex"

text \<open>\<^verbatim>\<open>isinstance(ex, Exception)\<close>\<close>

definition is_Exception :: "exc \<Rightarrow> bool" where
  "is_Exception ex = (\<not> class_is CancelledError ex \<and> \<not> class_is OtherBaseException ex)"

text \<open>\<^verbatim>\<open>exc.nested_error\<close> (\<open>None\<close>: no such attribute) and \<^verbatim>\<open>exc.__traceback__\<close>\<close>

fun nested_error :: "exc \<Rightarrow> exc option" where
  "nested_error (Exc c m tb) = None"
| "nested_error (ExecutionError n tb) = Some n"
| "nested_error (Wrapped w e m) = nested_error e"

fun traceback_of :: "exc \<Rightarrow> traceback" where
  "traceback_of (Exc c m tb) = tb"
| "traceback_of (ExecutionError n tb) = tb"
| "traceback_of (Wrapped w e m) = traceback_of e"

subsection \<open>Results and execution info\<close>

datatype SubtaskStatus = pending | running | succeeded | errored | cancelled


record SubtaskResult =
  status :: SubtaskStatus
  progress :: rat
  error :: "exc option"
  traceback :: "traceback option"
  data_size :: "int option"

record SubtaskExecutionInfo =
  band_name :: string
  supervisor_address :: string
  result :: SubtaskResult
  cancelling :: bool
  max_retries :: int
  num_retries :: int
  slot_id :: "int option"
  kill_timeout :: "int option"

text \<open>
  The entry \<^verbatim>\<open>run_subtask\<close> stores:
  \<^verbatim>\<open>SubtaskExecutionInfo(task, band_name, supervisor_address, max_retries=subtask_max_retries)\<close>,
  every other field at its default (\<^verbatim>\<open>SubtaskResult()\<close> has status pending, progress 0).
\<close>

definition new_SubtaskResult :: SubtaskResult where
  "new_SubtaskResult =
     \<lparr>status = pending, progress = 0, error = None, traceback = None, data_size = None\<rparr>"

definition new_SubtaskExecutionInfo :: "string \<Rightarrow> string \<Rightarrow> int \<Rightarrow> SubtaskExecutionInfo" where
  "new_SubtaskExecutionInfo band supervisor subtask_max_retries =
     \<lparr>band_name = band, supervisor_address = supervisor, result = new_SubtaskResult,
      cancelling = False, max_retries = subtask_max_retries, num_retries = 0,
      slot_id = None, kill_timeout = None\<rparr>"

section \<open>The retry helper\<close>

text \<open>
  \<^verbatim>\<open>_retry_run(subtask, subtask_info, target_async_func, *args)\<close>. The target is given by
  the outcome of each of its invocations: \<open>target i\<close> is what the \<open>i\<close>-th call
  (counted from 0) returns (\<open>Inr\<close>) or raises (\<open>Inl\<close>). The targets of the source never
  write \<open>num_retries\<close> or \<open>max_retries\<close>. The loop returns the outcome and the values
  \<open>subtask_info\<close> had at each invocation of the target, in order; the last one is its
  value on exit.
\<close>

function retry_loop ::
  "subtask \<Rightarrow> (nat \<Rightarrow> exc + 'a) \<Rightarrow> nat \<Rightarrow> SubtaskExecutionInfo
    \<Rightarrow> (exc + 'a) \<times> SubtaskExecutionInfo list" where
  "retry_loop st target i info =
     (case target i of
        Inr v \<Rightarrow> (Inr v, [info])
      | Inl ex \<Rightarrow>
          if is_OSError_or_MarsError ex then
            if num_retries info < max_retries info then
              (case retry_loop st target (Suc i) (info\<lparr>num_retries := num_retries info + 1\<rparr>) of
                 (r, infos) \<Rightarrow> (r, info # infos))
            else if max_retries info > 0 then
              (Inl (wrap_exception ex ''_ExceedMaxRerun''
                      (ExceedMaxRerunMsg (num_retries info) (max_retries info) (subtask_id st))),
               [info])
            else (Inl ex, [info])
          else if is_CancelledError ex then (Inl ex, [info])
          else if is_Exception ex then
            if max_retries info > 0 then
              (Inl (wrap_exception ex ''_UnhandledException''
                      (UnhandledMsg (subtask_id st) (num_retries info) (max_retries info))),
               [info])
            else (Inl ex, [info])
          else (Inl ex, [info]))"
  by pat_completeness auto
termination
  by (relation "measure (\<lambda>(st, target, i, info). nat (max_retries info - num_retries info))")
    auto

definition retry_run ::
  "subtask \<Rightarrow> SubtaskExecutionInfo \<Rightarrow> (nat \<Rightarrow> exc + 'a)
    \<Rightarrow> (exc + 'a) \<times> SubtaskExecutionInfo list" where
  "retry_run st info target =
     (if \<not> num_retries info \<ge> 0 then (Inl (Exc AssertionError [] []), [info])
      else if \<not> max_retries info \<ge> 0 then (Inl (Exc AssertionError [] []), [info])
      else retry_loop st target 0 info)"

section \<open>Result capture\<close>

text \<open>
  \<^verbatim>\<open>_fill_subtask_result_with_exception(subtask, subtask_info)\<close>. \<^verbatim>\<open>sys.exc_info()\<close> is the
  argument \<open>exc_info\<close>: the current exception and its traceback, or \<open>None\<close> when no
  exception is being handled (then \<open>exc\<close> and \<open>tb\<close> are Python's \<open>None\<close>).
\<close>

definition fill_subtask_result_with_exception ::
  "subtask \<Rightarrow> SubtaskExecutionInfo \<Rightarrow> (exc \<times> traceback) option \<Rightarrow> SubtaskExecutionInfo" where
  "fill_subtask_result_with_exception st subtask_info exc_info =
     (let (exc, tb) = (case exc_info of None \<Rightarrow> (None, None)
                       | Some (e, t) \<Rightarrow>
                           if is_ExecutionError e
                           then (nested_error e, map_option traceback_of (nested_error e))
                           else (Some e, Some t));
          status = (case exc of None \<Rightarrow> errored
                    | Some e \<Rightarrow> if is_CancelledError e then cancelled else errored)
      in subtask_info\<lparr>result := (result subtask_info)
           \<lparr>status := status, progress := 1, error := exc, traceback := tb\<rparr>\<rparr>)"

section \<open>Concrete scenarios\<close>

text \<open>A subtask with an empty chunk graph, used where only its id matters.\<close>

definition scenario_subtask :: subtask where
  "scenario_subtask =
     \<lparr>subtask_id = ''S'', session_id = ''sess'',
      chunk_graph = \<lparr>nodes = [], topological = [], successors = (\<lambda>c. []), result_chunks = []\<rparr>,
      pure_depend_keys = {}, retryable = True\<rparr>"

section \<open>Running a subtask once\<close>

type_synonym slot_key = "string \<times> string"

text \<open>
  The calls \<open>_run_subtask_once\<close> awaits on the quota actor, the slot manager, the subtask
  API and the actor framework, in the order they are made.
\<close>

datatype event =
  RequestBatchQuota "(slot_key \<times> int) list"
  | AcquireFreeSlot slot_key
  | RunSubtaskInSlot string int
  | CancelSubtaskInSlot string "int option"
  | KillSlot "int option"
  | GetSlotAddress "int option"
  | WaitActorPoolRecovered string
  | GetSubtaskSlot slot_key
  | ReleaseFreeSlot int slot_key
  | ReleaseQuotas "slot_key list"

text \<open>
  What each awaited call of one run of \<open>_run_subtask_once\<close> does: it returns (\<open>Inr\<close>) or
  raises (\<open>Inl\<close>; a cancellation delivered at that await is the \<open>CancelledError\<close> it
  raises). \<open>cancelling_after_quota\<close> and \<open>cancelling_after_slot\<close> are the values of
  \<open>subtask_info.cancelling\<close> that the two \<open>_check_cancelling\<close> calls read
  (\<open>cancel_subtask\<close> sets the flag from outside). \<open>cancel_subtask_in_slot\<close> is the whole
  \<^verbatim>\<open>asyncio.wait_for(asyncio.shield(...), kill_timeout)\<close>, which raises
  \<open>TimeoutError\<close> when the deadline passes.
\<close>

record env =
  request_batch_quota :: "exc + unit"
  cancelling_after_quota :: bool
  acquire_free_slot :: "exc + int"
  cancelling_after_slot :: bool
  run_subtask_in_slot :: "exc + SubtaskResult"
  cancel_subtask_in_slot :: "exc + unit"
  kill_slot :: "exc + unit"
  get_slot_address :: "exc + string"
  wait_actor_pool_recovered :: "exc + unit"
  get_subtask_slot :: "exc + int option"
  release_free_slot :: "exc + unit"
  release_quotas :: "exc + unit"

text \<open>\<^verbatim>\<open>_check_cancelling\<close> raises this.\<close>

definition raised_CancelledError :: exc where
  "raised_CancelledError = Exc CancelledError [] []"

text \<open>
  The \<^verbatim>\<open>try\<close> block. It yields the outcome, the local variables \<open>slot_id\<close> and
  \<open>aiotask\<close> (\<open>True\<close>: the task was created) as they are when the block is left, the
  calls made, and \<open>subtask_info\<close>.
\<close>

definition run_subtask_once_try ::
  "env \<Rightarrow> subtask \<Rightarrow> string \<Rightarrow> (slot_key \<times> int) list \<Rightarrow> SubtaskExecutionInfo
    \<Rightarrow> (exc + SubtaskResult) \<times> int option \<times> bool \<times> event list \<times> SubtaskExecutionInfo" where
  "run_subtask_once_try env st band batch_quota_req subtask_info =
     (case request_batch_quota env of
        Inl e \<Rightarrow> (Inl e, None, False, [RequestBatchQuota batch_quota_req], subtask_info)
      | Inr u \<Rightarrow>
          if cancelling_after_quota env
          then (Inl raised_CancelledError, None, False,
                [RequestBatchQuota batch_quota_req], subtask_info)
          else
            (case acquire_free_slot env of
               Inl e \<Rightarrow>
                 (Inl e, None, False,
                  [RequestBatchQuota batch_quota_req,
                   AcquireFreeSlot (session_id st, subtask_id st)], subtask_info)
             | Inr s \<Rightarrow>
                 if cancelling_after_slot env
                 then (Inl raised_CancelledError, Some s, False,
                       [RequestBatchQuota batch_quota_req,
                        AcquireFreeSlot (session_id st, subtask_id st)],
                       subtask_info\<lparr>slot_id := Some s\<rparr>)
                 else
                   (run_subtask_in_slot env, Some s, True,
                    [RequestBatchQuota batch_quota_req,
                     AcquireFreeSlot (session_id st, subtask_id st),
                     RunSubtaskInSlot band s],
                    subtask_info\<lparr>slot_id := Some s,
                       result := (result subtask_info)\<lparr>status := running\<rparr>\<rparr>)))"

text \<open>
  \<^verbatim>\<open>except asyncio.CancelledError as ex\<close>: the calls made; whatever happens in the
  handler, its \<^verbatim>\<open>finally: raise ex\<close> raises the cancellation again.
\<close>

definition on_CancelledError :: "env \<Rightarrow> string \<Rightarrow> int option \<Rightarrow> bool \<Rightarrow> event list" where
  "on_CancelledError env band slot aiotask =
     (if aiotask then
        CancelSubtaskInSlot band slot #
          (case cancel_subtask_in_slot env of
             Inr u \<Rightarrow> []
           | Inl e \<Rightarrow>
               if class_is TimeoutError e then
                 KillSlot slot #
                   (case kill_slot env of
                      Inl e1 \<Rightarrow> []
                    | Inr u \<Rightarrow>
                        GetSlotAddress slot #
                          (case get_slot_address env of
                             Inl e2 \<Rightarrow> []
                           | Inr sub_pool_address \<Rightarrow> [WaitActorPoolRecovered sub_pool_address]))
               else [])
      else [])"

text \<open>
  \<^verbatim>\<open>except (OSError, MarsError) as ex\<close>: what the handler raises and the calls made.
\<close>

definition on_OSError_or_MarsError ::
  "env \<Rightarrow> int option \<Rightarrow> exc \<Rightarrow> exc \<times> event list" where
  "on_OSError_or_MarsError env slot ex =
     (if slot \<noteq> None then
        (case get_slot_address env of
           Inl e1 \<Rightarrow> (e1, [GetSlotAddress slot])
         | Inr sub_pool_address \<Rightarrow>
             (case wait_actor_pool_recovered env of
                Inl e2 \<Rightarrow> (e2, [GetSlotAddress slot, WaitActorPoolRecovered sub_pool_address])
              | Inr u \<Rightarrow> (ex, [GetSlotAddress slot, WaitActorPoolRecovered sub_pool_address])))
      else (ex, []))"

text \<open>
  The \<^verbatim>\<open>finally\<close> block: the exception it raises, if any, and the calls made.
\<close>

definition run_subtask_once_finally ::
  "env \<Rightarrow> subtask \<Rightarrow> (slot_key \<times> int) list \<Rightarrow> int option \<Rightarrow> exc option \<times> event list" where
  "run_subtask_once_finally env st batch_quota_req slot =
     (case (case slot of
              None \<Rightarrow> (get_subtask_slot env, [GetSubtaskSlot (session_id st, subtask_id st)])
            | Some s \<Rightarrow> (Inr (Some s), [])) of
        (Inl e, t) \<Rightarrow> (Some e, t)
      | (Inr slot', t) \<Rightarrow>
          (case (case slot' of
                   None \<Rightarrow> (Inr (), [])
                 | Some s \<Rightarrow>
                     (release_free_slot env,
                      [ReleaseFreeSlot s (session_id st, subtask_id st)])) of
             (Inl e, t') \<Rightarrow> (Some e, t @ t')
           | (Inr u, t') \<Rightarrow>
               (case release_quotas env of
                  Inl e \<Rightarrow> (Some e, t @ t' @ [ReleaseQuotas (map fst batch_quota_req)])
                | Inr u' \<Rightarrow> (None, t @ t' @ [ReleaseQuotas (map fst batch_quota_req)]))))"

text \<open>
  The \<^verbatim>\<open>except\<close> clauses, in the order of the source: what is raised or returned once
  they are through, and the calls the handlers made.
\<close>

definition run_subtask_once_except ::
  "env \<Rightarrow> string \<Rightarrow> int option \<Rightarrow> bool \<Rightarrow> exc + SubtaskResult
    \<Rightarrow> (exc + SubtaskResult) \<times> event list" where
  "run_subtask_once_except env band slot aiotask r =
     (case r of
        Inr v \<Rightarrow> (Inr v, [])
      | Inl ex \<Rightarrow>
          if is_CancelledError ex
          then (Inl ex, on_CancelledError env band slot aiotask)
          else if is_OSError_or_MarsError ex
          then (Inl (fst (on_OSError_or_MarsError env slot ex)),
                snd (on_OSError_or_MarsError env slot ex))
          else (Inl ex, []))"

text \<open>
  \<open>_run_subtask_once\<close>: the outcome, the calls made in order, and \<open>subtask_info\<close>. An
  exception raised in the \<^verbatim>\<open>finally\<close> block replaces the outcome.
\<close>

definition run_subtask_once ::
  "env \<Rightarrow> subtask \<Rightarrow> string \<Rightarrow> (slot_key \<times> int) list \<Rightarrow> SubtaskExecutionInfo
    \<Rightarrow> (exc + SubtaskResult) \<times> event list \<times> SubtaskExecutionInfo" where
  "run_subtask_once env st band batch_quota_req subtask_info =
     (case run_subtask_once_try env st band batch_quota_req subtask_info of
        (r, slot, aiotask, t, info') \<Rightarrow>
          (case run_subtask_once_except env band slot aiotask r of
             (r', th) \<Rightarrow>
               (case run_subtask_once_finally env st batch_quota_req slot of
                  (Some e, tf) \<Rightarrow> (Inl e, t @ th @ tf, info')
                | (None, tf) \<Rightarrow> (r', t @ th @ tf, info'))))"

text \<open>
  The attempts \<open>i, i + 1, ..., i + n - 1\<close> of \<open>_run_subtask_once\<close> one after the other:
  the calls they make and what they write to \<open>subtask_info\<close>.
\<close>

fun run_subtask_attempts ::
  "(nat \<Rightarrow> env) \<Rightarrow> subtask \<Rightarrow> string \<Rightarrow> (slot_key \<times> int) list \<Rightarrow> nat \<Rightarrow> nat
    \<Rightarrow> SubtaskExecutionInfo \<Rightarrow> event list \<times> SubtaskExecutionInfo" where
  "run_subtask_attempts envs st band req i 0 subtask_info = ([], subtask_info)"
| "run_subtask_attempts envs st band req i (Suc n) subtask_info =
     (case run_subtask_once (envs i) st band req subtask_info of
        (r, t, info') \<Rightarrow>
          (case run_subtask_attempts envs st band req (Suc i) n info' of
             (t', info'') \<Rightarrow> (t @ t', info'')))"

text \<open>
  \<open>_retry_run_subtask\<close>. \<open>preamble\<close> is the outcome of its first three lines (the two
  actor reference lookups and \<^verbatim>\<open>self._subtask_info[subtask.subtask_id]\<close>); \<open>envs i\<close> is
  the environment of the \<open>i\<close>-th attempt. An attempt reads nothing of \<open>subtask_info\<close>, so
  in the retryable branch the attempts \<open>_retry_run\<close> makes are replayed by
  \<open>run_subtask_attempts\<close> for their calls and writes.
\<close>

definition retry_run_subtask ::
  "exc + unit \<Rightarrow> (nat \<Rightarrow> env) \<Rightarrow> subtask \<Rightarrow> string \<Rightarrow> (slot_key \<times> int) list
    \<Rightarrow> SubtaskExecutionInfo \<Rightarrow> (exc + SubtaskResult) \<times> event list \<times> SubtaskExecutionInfo" where
  "retry_run_subtask preamble envs st band batch_quota_req subtask_info =
     (case preamble of
        Inl e \<Rightarrow> (Inl e, [], subtask_info)
      | Inr u \<Rightarrow>
          if \<not> num_retries subtask_info \<ge> 0 then (Inl (Exc AssertionError [] []), [], subtask_info)
          else if \<not> max_retries subtask_info \<ge> 0
          then (Inl (Exc AssertionError [] []), [], subtask_info)
          else if retryable st then
            (case retry_run st subtask_info
                    (\<lambda>i. fst (run_subtask_once (envs i) st band batch_quota_req subtask_info)) of
               (r, infos) \<Rightarrow>
                 (case run_subtask_attempts envs st band batch_quota_req 0 (length infos)
                         subtask_info of
                    (t, info') \<Rightarrow> (r, t, info'\<lparr>num_retries := num_retries (last infos)\<rparr>)))
          else
            (case run_subtask_once (envs 0) st band batch_quota_req subtask_info of
               (Inr v, t, info') \<Rightarrow> (Inr v, t, info')
             | (Inl e, t, info') \<Rightarrow>
                 if is_Exception e then
                   (Inl (wrap_exception e ''_UnretryableException''
                           (UnretryableMsg (subtask_id st)
                              (map op (filter (\<lambda>chunk. op_retryable (op chunk) = Some False)
                                         (nodes (chunk_graph st)))))),
                    t, info')
                 else (Inl e, t, info')))"

fun is_release :: "event \<Rightarrow> bool" where
  "is_release (ReleaseFreeSlot s k) = True"
| "is_release (ReleaseQuotas ks) = True"
| "is_release e = False"

fun is_RequestBatchQuota :: "event \<Rightarrow> bool" where
  "is_RequestBatchQuota (RequestBatchQuota req) = True"
| "is_RequestBatchQuota e = False"

text \<open>
  Scenario 1 of the spec: the quota is granted, slot 7 is acquired, the run in the slot
  returns a succeeded result, and every other call returns.
\<close>

definition happy_env :: env where
  "happy_env =
     \<lparr>request_batch_quota = Inr (), cancelling_after_quota = False,
      acquire_free_slot = Inr 7, cancelling_after_slot = False,
      run_subtask_in_slot =
        Inr \<lparr>status = succeeded, progress = 1, error = None, traceback = None,
             data_size = Some 250\<rparr>,
      cancel_subtask_in_slot = Inr (), kill_slot = Inr (),
      get_slot_address = Inr ''sub-pool-7'', wait_actor_pool_recovered = Inr (),
      get_subtask_slot = Inr None, release_free_slot = Inr (), release_quotas = Inr ()\<rparr>"

text \<open>
  The run in the slot returns, and the cancellation of the coordinating task is delivered
  while \<open>release_free_slot\<close> is awaited.
\<close>

definition cancelled_in_release_env :: env where
  "cancelled_in_release_env = happy_env\<lparr>release_free_slot := Inl raised_CancelledError\<rparr>"

text \<open>
  Scenario 4 of the spec: a subtask that is not retryable, whose graph has a fetch
  chunk \<open>A\<close> and a chunk \<open>B\<close> computed by an operand with \<open>retryable = False\<close>.
\<close>

definition fetch_A :: chunk where
  "fetch_A = \<lparr>key = ''A'',
               op = \<lparr>op_key = ''op-A'', op_type = Fetch, outputs = [''A''], op_retryable = None\<rparr>\<rparr>"

definition compute_B :: chunk where
  "compute_B = \<lparr>key = ''B'',
                 op = \<lparr>op_key = ''op-B'', op_type = Compute, outputs = [''B''],
                       op_retryable = Some False\<rparr>\<rparr>"

definition graph_A_B :: chunk_graph where
  "graph_A_B =
     \<lparr>nodes = [fetch_A, compute_B], topological = [fetch_A, compute_B],
      successors = (\<lambda>c. if c = fetch_A then [compute_B] else []),
      result_chunks = [compute_B]\<rparr>"

definition unretryable_subtask :: subtask where
  "unretryable_subtask =
     \<lparr>subtask_id = ''S'', session_id = ''sess'', chunk_graph = graph_A_B,
      pure_depend_keys = {}, retryable = False\<rparr>"

text \<open>The run in the slot raises an \<open>OSError\<close>.\<close>

definition run_fails_env :: env where
  "run_fails_env = happy_env\<lparr>run_subtask_in_slot := Inl (Exc OSError ''conn reset'' [])\<rparr>"

text \<open>\<open>cancel_subtask\<close> has set \<open>cancelling\<close> when the slot is acquired.\<close>

definition cancelling_env :: env where
  "cancelling_env = happy_env\<lparr>cancelling_after_slot := True\<rparr>"

section \<open>The subtask processor\<close>

text \<open>
  A data key is a chunk key (a string) or, for shuffle data, a tuple of the mapper
  chunk's key and a reducer index; \<open>is_tuple\<close> is \<^verbatim>\<open>isinstance(key, tuple)\<close>.
\<close>

datatype data_key = StrKey string | TupleKey string "nat list"

fun is_tuple :: "data_key \<Rightarrow> bool" where
  "is_tuple (StrKey k) = False"
| "is_tuple (TupleKey k i) = True"

text \<open>
  Modelled from the spec: \<^verbatim>\<open>get_mapper_data_keys\<close> of
  \<^verbatim>\<open>mars/services/subtask/utils.py\<close> is not among the sources. The spec speaks of a
  shuffle mapper "producing multiple mapper keys"; they are the tuple keys of the given
  dictionary whose first component is the chunk key, in the dictionary's order.
\<close>

definition get_mapper_data_keys :: "string \<Rightarrow> (data_key \<times> 'v) list \<Rightarrow> data_key list" where
  "get_mapper_data_keys chunk_key context =
     filter (\<lambda>store_key. case store_key of StrKey k \<Rightarrow> False | TupleKey k i \<Rightarrow> k = chunk_key)
       (map fst context)"

datatype object_ref = ObjectId string | ObjectIds "string list"

text \<open>
  A delayed \<^verbatim>\<open>set_chunk_meta\<close>: the chunk, \<open>memory_size\<close>, \<open>store_size\<close>, \<open>bands\<close>,
  \<open>chunk_key\<close> and, for the supervisor's meta API, \<open>object_ref\<close>.
\<close>

datatype meta_call =
  WorkerSetChunkMeta chunk int int "(string \<times> string) list" string
  | SetChunkMeta chunk int int "(string \<times> string) list" string object_ref

definition raised_KeyError :: exc where
  "raised_KeyError = Exc KeyError [] []"

text \<open>
  The two branches of the loop body of \<open>_store_meta\<close> for one result chunk: the store
  size, the memory size, \<open>result_data_size\<close> after the branch, and the object reference.
  A dictionary is the list of its items in order; a missing key raises \<open>KeyError\<close>.
\<close>

definition result_chunk_sizes ::
  "(data_key \<times> int) list \<Rightarrow> (data_key \<times> int) list \<Rightarrow> (data_key \<times> string) list
    \<Rightarrow> string \<Rightarrow> int \<Rightarrow> exc + (int \<times> int \<times> int \<times> object_ref)" where
  "result_chunk_sizes data_key_to_store_size data_key_to_memory_size data_key_to_object_id
       chunk_key result_data_size =
     (if StrKey chunk_key \<in> set (map fst data_key_to_store_size) then
        (case (map_of data_key_to_store_size (StrKey chunk_key),
               map_of data_key_to_memory_size (StrKey chunk_key),
               map_of data_key_to_object_id (StrKey chunk_key)) of
           (Some store_size, Some memory_size, Some object_id) \<Rightarrow>
             Inr (store_size, memory_size, result_data_size + memory_size, ObjectId object_id)
         | _ \<Rightarrow> Inl raised_KeyError)
      else
        (let mapper_keys = get_mapper_data_keys chunk_key data_key_to_store_size in
         case (those (map (map_of data_key_to_store_size) mapper_keys),
               those (map (map_of data_key_to_memory_size) mapper_keys),
               those (map (map_of data_key_to_object_id) mapper_keys)) of
           (Some store_sizes, Some memory_sizes, Some object_ids) \<Rightarrow>
             Inr (sum_list store_sizes, sum_list memory_sizes, result_data_size,
                  ObjectIds object_ids)
         | _ \<Rightarrow> Inl raised_KeyError))"

text \<open>
  The loop of \<open>_store_meta\<close> over the result chunks, with \<open>set_chunk_metas\<close>,
  \<open>set_worker_chunk_metas\<close> and \<open>result_data_size\<close> as accumulators.
\<close>

fun store_meta_loop ::
  "string \<times> string \<Rightarrow> (data_key \<times> int) list \<Rightarrow> (data_key \<times> int) list
    \<Rightarrow> (data_key \<times> string) list \<Rightarrow> chunk set \<Rightarrow> chunk list
    \<Rightarrow> meta_call list \<times> meta_call list \<times> int
    \<Rightarrow> exc + (meta_call list \<times> meta_call list \<times> int)" where
  "store_meta_loop band dss dms doi update_meta_chunks [] acc = Inr acc"
| "store_meta_loop band dss dms doi update_meta_chunks (result_chunk # rest)
       (set_chunk_metas, set_worker_chunk_metas, result_data_size) =
     (case result_chunk_sizes dss dms doi (key result_chunk) result_data_size of
        Inl e \<Rightarrow> Inl e
      | Inr (store_size, memory_size, result_data_size', object_ref) \<Rightarrow>
          store_meta_loop band dss dms doi update_meta_chunks rest
            (set_chunk_metas @
               [SetChunkMeta result_chunk memory_size store_size [band] (key result_chunk)
                  object_ref],
             set_worker_chunk_metas @
               (if result_chunk \<in> update_meta_chunks
                then [WorkerSetChunkMeta result_chunk memory_size store_size [band]
                        (key result_chunk)]
                else []),
             result_data_size'))"

text \<open>
  \<open>_store_meta\<close>. \<open>set_chunks_meta\<close> is the outcome of the shielded publication of both
  batches. It yields the outcome, the delayed calls handed to the two meta APIs, and
  \<open>self.result\<close>, whose \<open>data_size\<close> is set in the last line only.
\<close>

definition store_meta ::
  "exc + unit \<Rightarrow> string \<times> string \<Rightarrow> chunk_graph \<Rightarrow> (data_key \<times> int) list
    \<Rightarrow> (data_key \<times> int) list \<Rightarrow> (data_key \<times> string) list \<Rightarrow> chunk set \<Rightarrow> SubtaskResult
    \<Rightarrow> (exc + unit) \<times> meta_call list \<times> SubtaskResult" where
  "store_meta set_chunks_meta band g data_key_to_store_size data_key_to_memory_size
       data_key_to_object_id update_meta_chunks res =
     (case store_meta_loop band data_key_to_store_size data_key_to_memory_size
             data_key_to_object_id update_meta_chunks (result_chunks g) ([], [], 0) of
        Inl e \<Rightarrow> (Inl e, [], res)
      | Inr (set_chunk_metas, set_worker_chunk_metas, result_data_size) \<Rightarrow>
          if set_chunk_metas \<noteq> [] then
            (case set_chunks_meta of
               Inl e \<Rightarrow> (Inl e, set_worker_chunk_metas @ set_chunk_metas, res)
             | Inr u \<Rightarrow>
                 (Inr (), set_worker_chunk_metas @ set_chunk_metas,
                  res\<lparr>data_size := Some result_data_size\<rparr>))
          else (Inr (), [], res\<lparr>data_size := Some result_data_size\<rparr>))"

text \<open>
  What claim C3 says \<open>result.data_size\<close> is: the sum, over the result chunks, of the
  chunk's own memory size when it is stored directly and of the memory sizes of its
  mapper keys otherwise.
\<close>

definition claimed_result_data_size ::
  "chunk_graph \<Rightarrow> (data_key \<times> int) list \<Rightarrow> (data_key \<times> int) list \<Rightarrow> int" where
  "claimed_result_data_size g data_key_to_store_size data_key_to_memory_size =
     sum_list (map (\<lambda>result_chunk.
        if StrKey (key result_chunk) \<in> set (map fst data_key_to_store_size)
        then (case map_of data_key_to_memory_size (StrKey (key result_chunk)) of
                Some memory_size \<Rightarrow> memory_size | None \<Rightarrow> 0)
        else sum_list (map (\<lambda>k. case map_of data_key_to_memory_size k of
                                   Some memory_size \<Rightarrow> memory_size | None \<Rightarrow> 0)
                         (get_mapper_data_keys (key result_chunk) data_key_to_store_size)))
       (result_chunks g))"

text \<open>
  Scenario 1 of the spec: the result chunk \<open>B\<close> is stored directly, with store size 150,
  memory size 250 and object id \<open>obj-B\<close>.
\<close>

definition stored_B_store_size :: "(data_key \<times> int) list" where
  "stored_B_store_size = [(StrKey ''B'', 150)]"

definition stored_B_memory_size :: "(data_key \<times> int) list" where
  "stored_B_memory_size = [(StrKey ''B'', 250)]"

definition stored_B_object_id :: "(data_key \<times> string) list" where
  "stored_B_object_id = [(StrKey ''B'', ''obj-B'')]"

text \<open>
  The result chunk \<open>B\<close> is a shuffle mapper chunk: the data stored for it are the two
  mapper keys \<open>(B, (0,))\<close> and \<open>(B, (1,))\<close>, with memory sizes 20 and 40.
\<close>

definition mapper_B_store_size :: "(data_key \<times> int) list" where
  "mapper_B_store_size = [(TupleKey ''B'' [0], 10), (TupleKey ''B'' [1], 30)]"

definition mapper_B_memory_size :: "(data_key \<times> int) list" where
  "mapper_B_memory_size = [(TupleKey ''B'' [0], 20), (TupleKey ''B'' [1], 40)]"

definition mapper_B_object_id :: "(data_key \<times> string) list" where
  "mapper_B_object_id = [(TupleKey ''B'' [0], ''obj-B0''), (TupleKey ''B'' [1], ''obj-B1'')]"

text \<open>
  What \<open>SubtaskProcessor.run\<close> and \<open>_unpin_data\<close> do that is seen from outside: an
  invocation of \<open>_unpin_data\<close> with its argument, a batch of delayed unpins handed to
  the storage API (each key with whether \<^verbatim>\<open>error="ignore"\<close> is passed), and the other
  stages of the pipeline.
\<close>

datatype pevent =
  LoadInputData
  | ExecuteGraph
  | UnpinData "data_key list"
  | UnpinBatch "(data_key \<times> bool) list"
  | StoreData
  | StoreMeta "meta_call list"

text \<open>
  What each awaited stage of one run does: it returns (\<open>Inr\<close>) or raises (\<open>Inl\<close>; a
  cancellation delivered there is the \<open>CancelledError\<close> it raises). \<open>optimize\<close> stands for
  the lines of \<open>run\<close> before the inputs are loaded (the optimizer, the key mapping, the
  progress reporter, \<open>update_meta_chunks\<close>). \<open>report_progress\<close> is the outcome of
  \<^verbatim>\<open>await report_progress\<close> in the last lines of \<open>run\<close>, after \<^verbatim>\<open>report_progress.cancel()\<close>:
  the \<open>CancelledError\<close> of a reporter that was still running, the exception of a
  reporter that had failed before (the \<open>ZeroDivisionError\<close> or \<open>AssertionError\<close> of a
  round, a failed notification), or the return of one whose loop had ended.
\<close>

record penv =
  optimize :: "exc + unit"
  load_input_data :: "exc + data_key list"
  execute_graph :: "exc + unit"
  unpin_batch :: "exc + unit"
  shuffle_unpin_batch :: "exc + unit"
  store_data ::
    "exc + (data_key list \<times> (data_key \<times> int) list \<times> (data_key \<times> int) list
            \<times> (data_key \<times> string) list)"
  set_chunks_meta :: "exc + unit"
  report_progress :: "exc + unit"

text \<open>\<open>_unpin_data\<close>: the outcome and the batches awaited.\<close>

definition unpin_data :: "penv \<Rightarrow> data_key list \<Rightarrow> (exc + unit) \<times> pevent list" where
  "unpin_data env data_keys =
     (let unpins = map (\<lambda>k. (k, False)) (filter (\<lambda>k. \<not> is_tuple k) data_keys);
          shuffle_unpins = map (\<lambda>k. (k, True)) (filter is_tuple data_keys)
      in case (if unpins \<noteq> [] then (unpin_batch env, [UnpinBatch unpins]) else (Inr (), [])) of
           (Inl e, t) \<Rightarrow> (Inl e, t)
         | (Inr u, t) \<Rightarrow>
             if shuffle_unpins \<noteq> []
             then (shuffle_unpin_batch env, t @ [UnpinBatch shuffle_unpins])
             else (Inr (), t))"

text \<open>\<open>done\<close>, without the clock and the \<open>is_done\<close> event.\<close>

definition processor_done :: "SubtaskResult \<Rightarrow> SubtaskResult" where
  "processor_done res =
     (if status res = running then res\<lparr>status := succeeded, progress := 1\<rparr>
      else res\<lparr>progress := 1\<rparr>)"

text \<open>
  The \<^verbatim>\<open>try\<close> block of \<open>run\<close>: the outcome, the local variables \<open>input_keys\<close> and
  \<open>unpinned\<close> when the block is left, the events, and \<open>self.result\<close>. The inner
  \<^verbatim>\<open>finally\<close> sets \<open>unpinned\<close> and unpins whatever \<open>_execute_graph\<close> did; an exception of
  \<open>_unpin_data\<close> replaces the one of \<open>_execute_graph\<close>.
\<close>

definition run_try ::
  "penv \<Rightarrow> string \<times> string \<Rightarrow> chunk_graph \<Rightarrow> chunk set \<Rightarrow> SubtaskResult
    \<Rightarrow> (exc + unit) \<times> data_key list option \<times> bool \<times> pevent list \<times> SubtaskResult" where
  "run_try env band g update_meta_chunks res =
     (case optimize env of
        Inl e \<Rightarrow> (Inl e, None, False, [], res)
      | Inr u \<Rightarrow>
          (case load_input_data env of
             Inl e \<Rightarrow> (Inl e, None, False, [LoadInputData], res)
           | Inr input_keys \<Rightarrow>
               (case unpin_data env input_keys of
                  (Inl e, tu) \<Rightarrow>
                    (Inl e, Some input_keys, True,
                     [LoadInputData, ExecuteGraph, UnpinData input_keys] @ tu, res)
                | (Inr u1, tu) \<Rightarrow>
                    (case execute_graph env of
                       Inl e \<Rightarrow>
                         (Inl e, Some input_keys, True,
                          [LoadInputData, ExecuteGraph, UnpinData input_keys] @ tu, res)
                     | Inr u2 \<Rightarrow>
                         (case store_data env of
                            Inl e \<Rightarrow>
                              (Inl e, Some input_keys, True,
                               [LoadInputData, ExecuteGraph, UnpinData input_keys] @ tu
                                 @ [StoreData], res)
                          | Inr (stored_keys, store_sizes, memory_sizes, data_key_to_object_id) \<Rightarrow>
                              (case store_meta (set_chunks_meta env) band g store_sizes
                                      memory_sizes data_key_to_object_id update_meta_chunks res of
                                 (r, calls, res') \<Rightarrow>
                                   (r, Some input_keys, True,
                                    [LoadInputData, ExecuteGraph, UnpinData input_keys] @ tu
                                      @ [StoreData, StoreMeta calls], res')))))))"

text \<open>
  \<open>run\<close>: what it returns or raises, the events in order, and \<open>self.result\<close> at the end.
  After the \<^verbatim>\<open>try\<close> statement, \<open>done\<close> is awaited, the reporter is cancelled and awaited:
  its \<open>CancelledError\<close> is passed over, any other exception it raises is raised by
  \<open>run\<close>, with \<open>self.result\<close> already set.
\<close>

definition run ::
  "penv \<Rightarrow> string \<times> string \<Rightarrow> chunk_graph \<Rightarrow> chunk set \<Rightarrow> SubtaskResult
    \<Rightarrow> (exc + SubtaskResult) \<times> pevent list \<times> SubtaskResult" where
  "run env band g update_meta_chunks res0 =
     (case run_try env band g update_meta_chunks (res0\<lparr>status := running\<rparr>) of
        (r, input_keys, unpinned, t, res) \<Rightarrow>
          (case (case r of
                   Inr u \<Rightarrow> res
                 | Inl ex \<Rightarrow>
                     if is_CancelledError ex then res\<lparr>status := cancelled, progress := 1\<rparr>
                     else processor_done
                       (if is_ExecutionError ex
                        then res\<lparr>status := errored, progress := 1, error := nested_error ex,
                               traceback := map_option traceback_of (nested_error ex)\<rparr>
                        else res\<lparr>status := errored, progress := 1, error := Some ex,
                               traceback := Some (traceback_of ex)\<rparr>)) of
             res1 \<Rightarrow>
               (case (case input_keys of
                        Some keys \<Rightarrow>
                          if \<not> unpinned
                          then (case unpin_data env keys of
                                  (ru, tu) \<Rightarrow> (ru, UnpinData keys # tu))
                          else (Inr (), [])
                      | None \<Rightarrow> (Inr (), [])) of
                  (Inl e, tf) \<Rightarrow> (Inl e, t @ tf, res1)
                | (Inr u, tf) \<Rightarrow>
                    (case r of
                       Inl ex \<Rightarrow> (Inl ex, t @ tf, res1)
                     | Inr u' \<Rightarrow>
                         (case report_progress env of
                            Inl e \<Rightarrow>
                              if is_CancelledError e
                              then (Inr (processor_done res1), t @ tf, processor_done res1)
                              else (Inl e, t @ tf, processor_done res1)
                          | Inr u'' \<Rightarrow>
                              (Inr (processor_done res1), t @ tf, processor_done res1))))))"

fun is_UnpinData :: "pevent \<Rightarrow> bool" where
  "is_UnpinData (UnpinData keys) = True"
| "is_UnpinData e = False"

text \<open>The delayed unpins of all the batches handed to the storage API, in order.\<close>

fun unpin_requests :: "pevent list \<Rightarrow> (data_key \<times> bool) list" where
  "unpin_requests [] = []"
| "unpin_requests (UnpinBatch reqs # es) = reqs @ unpin_requests es"
| "unpin_requests (e # es) = unpin_requests es"


definition raised_ZeroDivisionError :: exc where
  "raised_ZeroDivisionError = Exc ZeroDivisionError [] []"


text \<open>
  A run that is cancelled while the graph executes, with one plain input key and one
  shuffle input key; both unpin batches return.
\<close>

definition cancelled_run_env :: penv where
  "cancelled_run_env =
     \<lparr>optimize = Inr (), load_input_data = Inr [StrKey ''A'', TupleKey ''M'' [0]],
      execute_graph = Inl (Exc CancelledError [] []),
      unpin_batch = Inr (), shuffle_unpin_batch = Inr (),
      store_data = Inr ([], [], [], []), set_chunks_meta = Inr (),
      report_progress = Inl (Exc CancelledError [] [])\<rparr>"

text \<open>
  A run with the same input keys whose graph executes; the cancellation is delivered
  while \<open>_unpin_data\<close> awaits the batch of the plain keys.
\<close>

definition cancelled_in_unpin_env :: penv where
  "cancelled_in_unpin_env =
     cancelled_run_env\<lparr>execute_graph := Inr (), unpin_batch := Inl (Exc CancelledError [] [])\<rparr>"

text \<open>A subtask whose only chunk is the fetch chunk \<open>A\<close>.\<close>

definition fetch_only_subtask :: subtask where
  "fetch_only_subtask =
     \<lparr>subtask_id = ''S'', session_id = ''sess'',
      chunk_graph = \<lparr>nodes = [fetch_A], topological = [fetch_A], successors = (\<lambda>c. []),
                     result_chunks = []\<rparr>,
      pure_depend_keys = {}, retryable = True\<rparr>"

text \<open>
  A run in which every stage returns, on a graph without result chunks and with the
  input key \<open>A\<close>; the reporter has failed with the \<open>ZeroDivisionError\<close> of its first round.
\<close>

definition failed_reporter_env :: penv where
  "failed_reporter_env =
     \<lparr>optimize = Inr (), load_input_data = Inr [StrKey ''A''], execute_graph = Inr (),
      unpin_batch = Inr (), shuffle_unpin_batch = Inr (),
      store_data = Inr ([], [], [], []), set_chunks_meta = Inr (),
      report_progress = Inl raised_ZeroDivisionError\<rparr>"

section \<open>The memory estimator\<close>

text \<open>
  A dictionary from chunk keys to \<open>(store_size, calc_size)\<close> pairs is the list of its
  items; \<open>map_of\<close> looks a key up, \<open>AList.update\<close> assigns and \<open>AList.delete\<close> removes.
  \<^verbatim>\<open>dict(input_sizes.items())\<close> is \<open>AList.clearjunk\<close>, which keeps one item for each key.
\<close>

type_synonym sizes = "(string \<times> int \<times> int) list"

text \<open>
  Modelled from the spec: the class \<^verbatim>\<open>DAG\<close> of \<^verbatim>\<open>mars/core/graph\<close> is not among the
  sources. The spec asks for "a directed-graph abstraction supporting topological
  iteration, predecessor/successor iteration": the nodes in insertion order and the
  edges, each kept once, in insertion order.
\<close>

record dag =
  dag_nodes :: "string list"
  dag_edges :: "(string \<times> string) list"

definition add_node :: "string \<Rightarrow> dag \<Rightarrow> dag" where
  "add_node k g = g\<lparr>dag_nodes := dag_nodes g @ [k]\<rparr>"

definition add_edge :: "string \<Rightarrow> string \<Rightarrow> dag \<Rightarrow> dag" where
  "add_edge u v g =
     (if (u, v) \<in> set (dag_edges g) then g else g\<lparr>dag_edges := dag_edges g @ [(u, v)]\<rparr>)"

definition iter_successors :: "dag \<Rightarrow> string \<Rightarrow> string list" where
  "iter_successors g k = map snd (filter (\<lambda>e. fst e = k) (dag_edges g))"

definition iter_predecessors :: "dag \<Rightarrow> string \<Rightarrow> string list" where
  "iter_predecessors g k = map fst (filter (\<lambda>e. snd e = k) (dag_edges g))"

definition iter_indep :: "dag \<Rightarrow> string list" where
  "iter_indep g = filter (\<lambda>k. iter_predecessors g k = []) (dag_nodes g)"

text \<open>The loop that condenses the chunk graph into the graph of operand keys.\<close>

definition condense_node :: "subtask \<Rightarrow> chunk \<Rightarrow> dag \<Rightarrow> dag" where
  "condense_node st n op_key_graph =
     (if key n \<in> pure_depend_keys st then op_key_graph
      else
        fold (\<lambda>succ g.
                add_edge (op_key (op n)) (op_key (op succ))
                  (if op_key (op succ) \<notin> set (dag_nodes g)
                   then add_node (op_key (op succ)) g else g))
          (successors (chunk_graph st) n)
          (if op_key (op n) \<notin> set (dag_nodes op_key_graph)
           then add_node (op_key (op n)) op_key_graph else op_key_graph))"

definition condense :: "subtask \<Rightarrow> dag" where
  "condense st =
     fold (condense_node st) (topological (chunk_graph st)) \<lparr>dag_nodes = [], dag_edges = []\<rparr>"

text \<open>
  \<^verbatim>\<open>key_to_ops[key][0]\<close>: an operand with that key, \<open>KeyError\<close> when the graph has none.
  \<open>key_to_ops[key]\<close> is the list of a set of operands, whose order Python leaves open;
  the operand of the first such chunk of the graph is taken. The chunks that share an
  operand key are the outputs of one operand object in Mars, so the set has one element.
\<close>

definition key_to_op :: "chunk_graph \<Rightarrow> string \<Rightarrow> exc + operand" where
  "key_to_op g k =
     (case filter (\<lambda>n. op_key (op n) = k) (nodes g) of
        [] \<Rightarrow> Inl (Exc KeyError [] [])
      | n # ns \<Rightarrow> Inr (op n))"

text \<open>\<^verbatim>\<open>defaultdict(lambda: 0)\<close>: reading and adding to an entry.\<close>

definition dd_get :: "(string \<times> int) list \<Rightarrow> string \<Rightarrow> int" where
  "dd_get m k = (case map_of m k of None \<Rightarrow> 0 | Some v \<Rightarrow> v)"

definition dd_add :: "string \<Rightarrow> int \<Rightarrow> (string \<times> int) list \<Rightarrow> (string \<times> int) list" where
  "dd_add k d m = AList.update k (dd_get m k + d) m"

text \<open>
  The variables of the \<^verbatim>\<open>while\<close> loop. The top of \<open>key_stack\<close> is its last element.
  \<open>visited_op_keys\<close> is written and never read, and is left out.
\<close>

record est_state =
  key_stack :: "string list"
  pred_ref_count :: "(string \<times> int) list"
  succ_ref_count :: "(string \<times> int) list"
  chunk_key_to_sizes :: "(string \<times> int) list"
  size_context :: sizes
  total_memory_cost :: int
  max_memory_cost :: int

text \<open>The loop over the successors of the popped key.\<close>

fun visit_successors ::
  "string list \<Rightarrow> (string \<times> int) list \<Rightarrow> string list
    \<Rightarrow> exc + ((string \<times> int) list \<times> string list)" where
  "visit_successors [] prc stack = Inr (prc, stack)"
| "visit_successors (succ_op_key # rest) prc stack =
     (case map_of prc succ_op_key of
        None \<Rightarrow> Inl (Exc KeyError [] [])
      | Some c \<Rightarrow>
          visit_successors rest (AList.update succ_op_key (c - 1) prc)
            (if c - 1 = 0 then stack @ [succ_op_key] else stack))"

text \<open>
  The second loop over the outputs of a predecessor that has no successor left:
  \<open>is_fetch\<close> is \<open>account_idx = 1\<close>.
\<close>

fun pop_outputs ::
  "bool \<Rightarrow> string list \<Rightarrow> (string \<times> int) list \<Rightarrow> sizes \<Rightarrow> int \<Rightarrow> sizes \<times> int" where
  "pop_outputs is_fetch [] cks ctx pop_result_cost = (ctx, pop_result_cost)"
| "pop_outputs is_fetch (out # outs) cks ctx pop_result_cost =
     (let v = (case map_of ctx out of None \<Rightarrow> (0, 0) | Some p \<Rightarrow> p);
          cost = (if is_fetch then snd v else fst v)
      in if dd_get cks out = 0
         then pop_outputs is_fetch outs cks (AList.delete out ctx) (pop_result_cost + cost)
         else pop_outputs is_fetch outs cks ctx (pop_result_cost + cost))"

text \<open>The loop over the predecessors of the popped key.\<close>

fun visit_predecessors :: "chunk_graph \<Rightarrow> string list \<Rightarrow> est_state \<Rightarrow> exc + est_state" where
  "visit_predecessors g [] s = Inr s"
| "visit_predecessors g (pred_op_key # rest) s =
     (case map_of (succ_ref_count s) pred_op_key of
        None \<Rightarrow> Inl (Exc KeyError [] [])
      | Some c \<Rightarrow>
          if c - 1 = 0 then
            (case key_to_op g pred_op_key of
               Inl e \<Rightarrow> Inl e
             | Inr pred_op \<Rightarrow>
                 (let cks = fold (\<lambda>out. dd_add out (- 1)) (outputs pred_op)
                              (chunk_key_to_sizes s)
                  in case pop_outputs (op_type pred_op = Fetch) (outputs pred_op) cks
                            (size_context s) 0 of
                       (ctx, pop_result_cost) \<Rightarrow>
                         visit_predecessors g rest
                           (s\<lparr>succ_ref_count := AList.update pred_op_key (c - 1) (succ_ref_count s),
                              chunk_key_to_sizes := cks, size_context := ctx,
                              total_memory_cost := total_memory_cost s - pop_result_cost\<rparr>)))
          else
            visit_predecessors g rest
              (s\<lparr>succ_ref_count := AList.update pred_op_key (c - 1) (succ_ref_count s)\<rparr>))"

text \<open>
  The body of the \<^verbatim>\<open>while\<close> loop, for a stack that is not empty. \<open>estimate_size\<close> is
  \<^verbatim>\<open>op.estimate_size(size_context, op)\<close>, which belongs to the operands and is not among
  the sources: it takes the size context and returns the one it leaves, or raises.
\<close>

definition estimate_step ::
  "(sizes \<Rightarrow> operand \<Rightarrow> exc + sizes) \<Rightarrow> chunk_graph \<Rightarrow> dag \<Rightarrow> est_state \<Rightarrow> exc + est_state" where
  "estimate_step estimate_size g op_key_graph s =
     (let k = last (key_stack s) in
      case key_to_op g k of
        Inl e \<Rightarrow> Inl e
      | Inr opr \<Rightarrow>
          (case (if op_type opr \<noteq> Fetch then estimate_size (size_context s) opr
                 else Inr (size_context s)) of
             Inl e \<Rightarrow> Inl e
           | Inr ctx \<Rightarrow>
               (case those (map (map_of ctx) (outputs opr)) of
                  None \<Rightarrow> Inl (Exc KeyError [] [])
                | Some out_sizes \<Rightarrow>
                    (let calc_cost = sum_list (map snd out_sizes);
                         total1 = total_memory_cost s + calc_cost;
                         max1 = max total1 (max_memory_cost s);
                         total2 = (if op_type opr \<noteq> Fetch
                                   then total1 + (sum_list (map fst out_sizes) - calc_cost)
                                   else total1)
                     in case visit_successors (iter_successors op_key_graph k)
                               (pred_ref_count s) (butlast (key_stack s)) of
                          Inl e \<Rightarrow> Inl e
                        | Inr (prc, stack) \<Rightarrow>
                            visit_predecessors g (iter_predecessors op_key_graph k)
                              (s\<lparr>key_stack := stack, pred_ref_count := prc,
                                 size_context := ctx, total_memory_cost := total2,
                                 max_memory_cost := max1\<rparr>)))))"

text \<open>The number of operand keys that still wait for a predecessor.\<close>

definition waiting :: "(string \<times> int) list \<Rightarrow> nat" where
  "waiting prc = length (filter (\<lambda>p. 0 < snd p) prc)"

text \<open>The \<^verbatim>\<open>while key_stack\<close> loop.\<close>

function estimate_loop ::
  "(sizes \<Rightarrow> operand \<Rightarrow> exc + sizes) \<Rightarrow> chunk_graph \<Rightarrow> dag \<Rightarrow> est_state \<Rightarrow> exc + est_state" where
  "estimate_loop estimate_size g op_key_graph s =
     (if key_stack s = [] then Inr s
      else
        (case estimate_step estimate_size g op_key_graph s of
           Inl e \<Rightarrow> Inl e
         | Inr s' \<Rightarrow> estimate_loop estimate_size g op_key_graph s'))"
  by pat_completeness auto
termination
proof (relation "measure (\<lambda>(estimate_size, g, op_key_graph, s).
                   length (key_stack s) + waiting (pred_ref_count s))")
  show "wf (measure (\<lambda>(estimate_size, g, op_key_graph, s).
                   length (key_stack s) + waiting (pred_ref_count s)))"
    by simp
next
  fix estimate_size :: "sizes \<Rightarrow> operand \<Rightarrow> exc + sizes"
    and g :: chunk_graph and op_key_graph :: dag and s s' :: est_state
  assume stack: "key_stack s \<noteq> []"
    and step: "estimate_step estimate_size g op_key_graph s = Inr s'"
  have upd: "waiting (AList.update k (c - 1) prc) \<le> waiting prc \<and>
       (c - 1 = 0 \<longrightarrow> waiting (AList.update k (c - 1) prc) < waiting prc)"
    if "map_of prc k = Some c" for prc k c
    using that by (induction prc) (auto simp: waiting_def)
  have succs: "length stack' + waiting prc' \<le> length stack + waiting prc"
    if "visit_successors ks prc stack = Inr (prc', stack')" for ks prc stack prc' stack'
    using that
  proof (induction ks arbitrary: prc stack)
    case Nil
    then show ?case by simp
  next
    case (Cons k ks)
    from Cons.prems obtain c where c: "map_of prc k = Some c"
      and rest: "visit_successors ks (AList.update k (c - 1) prc)
                   (if c - 1 = 0 then stack @ [k] else stack) = Inr (prc', stack')"
      by (auto split: option.splits)
    from Cons.IH[OF rest] upd[OF c] show ?case
      by (auto split: if_splits)
  qed
  have preds: "key_stack t' = key_stack t \<and> pred_ref_count t' = pred_ref_count t"
    if "visit_predecessors g ks t = Inr t'" for ks t t'
    using that
  proof (induction ks arbitrary: t)
    case Nil
    then show ?case by simp
  next
    case (Cons k ks)
    from Cons.prems show ?case
      by (auto split: option.splits if_splits sum.splits prod.splits simp: Let_def
          dest!: Cons.IH)
  qed
  from step obtain prc stack' s1 where
    vs: "visit_successors (iter_successors op_key_graph (last (key_stack s))) (pred_ref_count s)
           (butlast (key_stack s)) = Inr (prc, stack')"
    and vp: "visit_predecessors g (iter_predecessors op_key_graph (last (key_stack s))) s1 = Inr s'"
    and s1: "key_stack s1 = stack'" "pred_ref_count s1 = prc"
    by (auto simp: estimate_step_def Let_def split: sum.splits option.splits prod.splits)
  from preds[OF vp] s1 have "key_stack s' = stack'" "pred_ref_count s' = prc" by simp_all
  moreover from succs[OF vs]
  have "length stack' + waiting prc
          \<le> length (butlast (key_stack s)) + waiting (pred_ref_count s)" .
  moreover have "length (butlast (key_stack s)) < length (key_stack s)"
    using stack by simp
  ultimately show "((estimate_size, g, op_key_graph, s'), (estimate_size, g, op_key_graph, s))
      \<in> measure (\<lambda>(estimate_size, g, op_key_graph, s).
                   length (key_stack s) + waiting (pred_ref_count s))"
    by simp
qed

declare estimate_loop.simps [simp del]

text \<open>
  \<open>_estimate_sizes\<close>: \<open>(final store size, peak memory cost)\<close>, or what the loop raises.
\<close>

definition estimate_sizes ::
  "(sizes \<Rightarrow> operand \<Rightarrow> exc + sizes) \<Rightarrow> subtask \<Rightarrow> sizes \<Rightarrow> exc + (int \<times> int)" where
  "estimate_sizes estimate_size st input_sizes =
     (let ctx = AList.clearjunk input_sizes;
          g = chunk_graph st;
          cks = fold (\<lambda>n. dd_add (key n) 1) (nodes g) [];
          op_key_graph = condense st
      in case estimate_loop estimate_size g op_key_graph
                \<lparr>key_stack = iter_indep op_key_graph,
                 pred_ref_count =
                   map (\<lambda>k. (k, int (length (iter_predecessors op_key_graph k))))
                     (dag_nodes op_key_graph),
                 succ_ref_count =
                   map (\<lambda>k. (k, int (length (iter_successors op_key_graph k))))
                     (dag_nodes op_key_graph),
                 chunk_key_to_sizes = cks, size_context = ctx, total_memory_cost = 0,
                 max_memory_cost = sum_list (map (\<lambda>(k, store_size, calc_size). calc_size) ctx)\<rparr> of
           Inl e \<Rightarrow> Inl e
         | Inr s \<Rightarrow>
             Inr (sum_list (map (\<lambda>(k, store_size, calc_size). store_size) (size_context s)),
                  max_memory_cost s))"

text \<open>Doubling the memory-cost component of every entry of \<open>input_sizes\<close>.\<close>

definition double_memory_cost :: "sizes \<Rightarrow> sizes" where
  "double_memory_cost input_sizes =
     AList.map_ran (\<lambda>k (store_size, calc_size). (store_size, 2 * calc_size)) input_sizes"

text \<open>
  Scenario 1 of the spec: the graph \<open>A \<rightarrow> B\<close> with input sizes \<open>{A: (100, 200)}\<close>. The
  operand of \<open>B\<close> is taken to estimate for its output the sizes the result has in that
  scenario, store size 150 and memory size 250, whatever the sizes of its inputs are.
\<close>

definition subtask_A_B :: subtask where
  "subtask_A_B =
     \<lparr>subtask_id = ''S'', session_id = ''sess'', chunk_graph = graph_A_B,
      pure_depend_keys = {}, retryable = True\<rparr>"

definition estimate_size_B :: "sizes \<Rightarrow> operand \<Rightarrow> exc + sizes" where
  "estimate_size_B ctx opr = Inr (AList.update ''B'' (150, 250) ctx)"

section \<open>Properties of the retry helper\<close>

lemma retry_loop_shape:
  "retry_loop st target i info = (r, infos) \<Longrightarrow>
     infos \<noteq> [] \<and>
     (\<forall>j < length infos. infos ! j = info\<lparr>num_retries := num_retries info + int j\<rparr>) \<and>
     (\<forall>j. Suc j < length infos \<longrightarrow>
        (\<exists>ex. target (i + j) = Inl ex \<and> is_OSError_or_MarsError ex \<and>
              num_retries info + int j < max_retries info))"
proof (induction st target i info arbitrary: r infos rule: retry_loop.induct)
  case (1 st target i info)
  show ?case
  proof (cases "\<exists>ex. target i = Inl ex \<and> is_OSError_or_MarsError ex \<and> num_retries info < max_retries info")
    case True
    then obtain ex where ex: "target i = Inl ex" "is_OSError_or_MarsError ex"
      "num_retries info < max_retries info" by blast
    obtain r' infos' where rec: "retry_loop st target (Suc i) (info\<lparr>num_retries := num_retries info + 1\<rparr>) = (r', infos')"
      by (cases "retry_loop st target (Suc i) (info\<lparr>num_retries := num_retries info + 1\<rparr>)")
    from "1.prems" ex rec have eq: "r = r'" "infos = info # infos'"
      by (simp_all add: retry_loop.simps[of st target i info])
    note IH = "1.IH"[OF ex(1) ex(2) ex(3) rec]
    show ?thesis
    proof (intro conjI allI impI)
      show "infos \<noteq> []" using eq by simp
    next
      fix j assume "j < length infos"
      then show "infos ! j = info\<lparr>num_retries := num_retries info + int j\<rparr>"
        using IH eq by (cases j) auto
    next
      fix j assume "Suc j < length infos"
      then show "\<exists>ex. target (i + j) = Inl ex \<and> is_OSError_or_MarsError ex \<and>
              num_retries info + int j < max_retries info"
        using IH eq ex by (cases j) auto
    qed
  next
    case False
    with "1.prems" have "infos = [info]"
      by (auto simp: retry_loop.simps[of st target i info] split: sum.splits if_splits)
    then show ?thesis by simp
  qed
qed

lemma class_is_unique: "class_is c e \<Longrightarrow> class_is c' e \<Longrightarrow> c = c'"
  by (induction e) auto

lemma retry_loop_last:
  "retry_loop st target i info = (r, infos) \<Longrightarrow>
     (case target (i + (length infos - 1)) of
        Inr v \<Rightarrow> r = Inr v
      | Inl ex \<Rightarrow>
          (is_OSError_or_MarsError ex \<longrightarrow> \<not> num_retries (last infos) < max_retries info) \<and>
          r = Inl (if is_OSError_or_MarsError ex then
                     if max_retries info > 0
                     then wrap_exception ex ''_ExceedMaxRerun''
                            (ExceedMaxRerunMsg (num_retries (last infos)) (max_retries info) (subtask_id st))
                     else ex
                   else if is_CancelledError ex then ex
                   else if is_Exception ex \<and> max_retries info > 0
                   then wrap_exception ex ''_UnhandledException''
                          (UnhandledMsg (subtask_id st) (num_retries (last infos)) (max_retries info))
                   else ex))"
proof (induction st target i info arbitrary: r infos rule: retry_loop.induct)
  case (1 st target i info)
  show ?case
  proof (cases "\<exists>ex. target i = Inl ex \<and> is_OSError_or_MarsError ex \<and> num_retries info < max_retries info")
    case True
    then obtain ex where ex: "target i = Inl ex" "is_OSError_or_MarsError ex"
      "num_retries info < max_retries info" by blast
    obtain r' infos' where rec: "retry_loop st target (Suc i) (info\<lparr>num_retries := num_retries info + 1\<rparr>) = (r', infos')"
      by (cases "retry_loop st target (Suc i) (info\<lparr>num_retries := num_retries info + 1\<rparr>)")
    from "1.prems" ex rec have eq: "r = r'" "infos = info # infos'"
      by (simp_all add: retry_loop.simps[of st target i info])
    have ne: "infos' \<noteq> []" using retry_loop_shape[OF rec] by simp
    then have idx: "i + (length (info # infos') - 1) = Suc i + (length infos' - 1)"
      by (cases infos') auto
    have lst: "last (info # infos') = last infos'" using ne by simp
    have mx: "max_retries (info\<lparr>num_retries := num_retries info + 1\<rparr>) = max_retries info"
      by simp
    note IH = "1.IH"[OF ex(1) ex(2) ex(3) rec, unfolded mx]
    show ?thesis unfolding eq idx lst by (rule IH)
  next
    case False
    with "1.prems" have "infos = [info]"
      by (auto simp: retry_loop.simps[of st target i info] split: sum.splits if_splits)
    with "1.prems" False show ?thesis
      by (auto simp: retry_loop.simps[of st target i info] split: sum.splits if_splits)
  qed
qed

text \<open>
  Claim C2. A call of \<open>_retry_run\<close> that reaches its target (both assertions hold)
  invokes the target \<open>length infos\<close> times. Every invocation but the last raised an
  \<open>OSError\<close> or \<open>MarsError\<close> while \<open>num_retries < max_retries\<close>, and \<open>num_retries\<close> was
  incremented by one before the next. The last invocation decides the outcome: a value
  is returned; an \<open>OSError\<close> or \<open>MarsError\<close> there means the retries are exhausted, and
  it is raised wrapped as \<open>_ExceedMaxRerun\<close> when \<open>max_retries > 0\<close>; a cancellation is
  raised as it is, so it always ends the loop at once; any other \<open>Exception\<close> is wrapped
  as \<open>_UnhandledException\<close> only when \<open>max_retries > 0\<close>; and with \<open>max_retries = 0\<close>
  every error is raised verbatim.
\<close>

theorem retry_run_policy:
  assumes "0 \<le> num_retries info" and "0 \<le> max_retries info"
    and "retry_run st info target = (r, infos)"
  shows "infos \<noteq> [] \<and> hd infos = info \<and>
     (\<forall>j. Suc j < length infos \<longrightarrow>
        (\<exists>ex. target j = Inl ex \<and> is_OSError_or_MarsError ex \<and>
              num_retries (infos ! j) < max_retries info \<and>
              infos ! Suc j = (infos ! j)\<lparr>num_retries := num_retries (infos ! j) + 1\<rparr>)) \<and>
     (case target (length infos - 1) of
        Inr v \<Rightarrow> r = Inr v
      | Inl ex \<Rightarrow>
          (is_OSError_or_MarsError ex \<longrightarrow> \<not> num_retries (last infos) < max_retries info) \<and>
          (max_retries info = 0 \<longrightarrow> r = Inl ex) \<and>
          (is_CancelledError ex \<longrightarrow> r = Inl ex) \<and>
          r = Inl (if is_OSError_or_MarsError ex then
                     if max_retries info > 0
                     then wrap_exception ex ''_ExceedMaxRerun''
                            (ExceedMaxRerunMsg (num_retries (last infos)) (max_retries info) (subtask_id st))
                     else ex
                   else if is_CancelledError ex then ex
                   else if is_Exception ex \<and> max_retries info > 0
                   then wrap_exception ex ''_UnhandledException''
                          (UnhandledMsg (subtask_id st) (num_retries (last infos)) (max_retries info))
                   else ex))"
proof -
  from assms have loop: "retry_loop st target 0 info = (r, infos)"
    by (simp add: retry_run_def)
  note shape = retry_loop_shape[OF loop]
  note lst = retry_loop_last[OF loop]
  have ne: "infos \<noteq> []" using shape by simp
  have hd: "hd infos = info"
    using shape ne by (cases infos) (auto dest: spec[of _ 0])
  have steps: "\<forall>j. Suc j < length infos \<longrightarrow>
        (\<exists>ex. target j = Inl ex \<and> is_OSError_or_MarsError ex \<and>
              num_retries (infos ! j) < max_retries info \<and>
              infos ! Suc j = (infos ! j)\<lparr>num_retries := num_retries (infos ! j) + 1\<rparr>)"
  proof (intro allI impI)
    fix j assume j: "Suc j < length infos"
    then have a: "infos ! j = info\<lparr>num_retries := num_retries info + int j\<rparr>"
      and b: "infos ! Suc j = info\<lparr>num_retries := num_retries info + int (Suc j)\<rparr>"
      using shape by auto
    from shape j obtain ex where "target j = Inl ex" "is_OSError_or_MarsError ex"
      "num_retries info + int j < max_retries info" by auto
    then show "\<exists>ex. target j = Inl ex \<and> is_OSError_or_MarsError ex \<and>
              num_retries (infos ! j) < max_retries info \<and>
              infos ! Suc j = (infos ! j)\<lparr>num_retries := num_retries (infos ! j) + 1\<rparr>"
      using a b by (auto simp: algebra_simps)
  qed
  have fin: "case target (length infos - 1) of
        Inr v \<Rightarrow> r = Inr v
      | Inl ex \<Rightarrow>
          (is_OSError_or_MarsError ex \<longrightarrow> \<not> num_retries (last infos) < max_retries info) \<and>
          (max_retries info = 0 \<longrightarrow> r = Inl ex) \<and>
          (is_CancelledError ex \<longrightarrow> r = Inl ex) \<and>
          r = Inl (if is_OSError_or_MarsError ex then
                     if max_retries info > 0
                     then wrap_exception ex ''_ExceedMaxRerun''
                            (ExceedMaxRerunMsg (num_retries (last infos)) (max_retries info) (subtask_id st))
                     else ex
                   else if is_CancelledError ex then ex
                   else if is_Exception ex \<and> max_retries info > 0
                   then wrap_exception ex ''_UnhandledException''
                          (UnhandledMsg (subtask_id st) (num_retries (last infos)) (max_retries info))
                   else ex)"
    using lst
    by (auto split: sum.splits simp: is_OSError_or_MarsError_def is_CancelledError_def
        dest: class_is_unique)
  show ?thesis using ne hd steps fin by blast
qed

theorem retry_run_policy_witness:
  "0 \<le> num_retries (new_SubtaskExecutionInfo ''numa-0'' ''sv'' 1) \<and>
   0 \<le> max_retries (new_SubtaskExecutionInfo ''numa-0'' ''sv'' 1) \<and>
   retry_run scenario_subtask (new_SubtaskExecutionInfo ''numa-0'' ''sv'' 1)
       (\<lambda>i. Inl (Exc OSError ''conn reset'' []) :: exc + unit) =
     (Inl (Wrapped ''_ExceedMaxRerun'' (Exc OSError ''conn reset'' [])
            (ExceedMaxRerunMsg 1 1 ''S'')),
      [new_SubtaskExecutionInfo ''numa-0'' ''sv'' 1,
       (new_SubtaskExecutionInfo ''numa-0'' ''sv'' 1)\<lparr>num_retries := 1\<rparr>]) \<and>
   \<not> num_retries ((new_SubtaskExecutionInfo ''numa-0'' ''sv'' 1)\<lparr>num_retries := 1\<rparr>)
       < max_retries (new_SubtaskExecutionInfo ''numa-0'' ''sv'' 1)"
proof -
  let ?I = "new_SubtaskExecutionInfo ''numa-0'' ''sv'' 1"
  let ?T = "\<lambda>i::nat. Inl (Exc OSError ''conn reset'' []) :: exc + unit"
  have h1: "0 \<le> num_retries ?I" and h2: "0 \<le> max_retries ?I"
    by (simp_all add: new_SubtaskExecutionInfo_def)
  have h3: "retry_run scenario_subtask ?I ?T =
     (Inl (Wrapped ''_ExceedMaxRerun'' (Exc OSError ''conn reset'' [])
            (ExceedMaxRerunMsg 1 1 ''S'')),
      [?I, ?I\<lparr>num_retries := 1\<rparr>])"
    by (simp add: retry_run_def new_SubtaskExecutionInfo_def
        is_OSError_or_MarsError_def wrap_exception_def scenario_subtask_def)
  show ?thesis using h1 h2 h3 retry_run_policy[OF h1 h2 h3]
    by (simp add: is_OSError_or_MarsError_def)
qed

lemma retry_loop_invariant:
  assumes "retry_loop st target i info = (r, infos)"
    and "num_retries info \<le> max_retries info" and "s \<in> set infos"
  shows "num_retries s \<le> max_retries s \<and> max_retries s = max_retries info"
proof -
  note shape = retry_loop_shape[OF assms(1)]
  from assms(3) obtain j where j: "j < length infos" "s = infos ! j"
    by (auto simp: in_set_conv_nth)
  then have s: "s = info\<lparr>num_retries := num_retries info + int j\<rparr>"
    using shape by simp
  show ?thesis
  proof (cases j)
    case 0
    then show ?thesis using s assms(2) by simp
  next
    case (Suc j')
    then have "Suc j' < length infos" using j by simp
    then have "num_retries info + int j' < max_retries info" using shape by blast
    then show ?thesis using s Suc by simp
  qed
qed

text \<open>
  Claim C8, as amended. \<open>num_retries \<le> max_retries\<close> holds on the entry \<open>run_subtask\<close>
  creates when the configured \<open>subtask_max_retries\<close> is not negative, and every call of
  \<open>_retry_run\<close> that starts with \<open>num_retries \<le> max_retries\<close> keeps it at every
  invocation of its target and on exit, leaving \<open>max_retries\<close> as it was. So for
  \<open>max_retries = k > 0\<close> the observed \<open>num_retries\<close> never exceeds \<open>k\<close>.
\<close>

theorem num_retries_le_max_retries:
  "(0 \<le> k \<longrightarrow>
      num_retries (new_SubtaskExecutionInfo band supervisor k)
        \<le> max_retries (new_SubtaskExecutionInfo band supervisor k)) \<and>
   (num_retries info \<le> max_retries info \<longrightarrow>
      (\<forall>s \<in> set (snd (retry_run st info target)).
          num_retries s \<le> max_retries s \<and> max_retries s = max_retries info))"
proof (rule conjI)
  show "0 \<le> k \<longrightarrow> num_retries (new_SubtaskExecutionInfo band supervisor k)
        \<le> max_retries (new_SubtaskExecutionInfo band supervisor k)"
    by (simp add: new_SubtaskExecutionInfo_def)
next
  show "num_retries info \<le> max_retries info \<longrightarrow>
      (\<forall>s \<in> set (snd (retry_run st info target)).
          num_retries s \<le> max_retries s \<and> max_retries s = max_retries info)"
  proof (intro impI ballI)
  fix s
  assume inv: "num_retries info \<le> max_retries info"
    and s: "s \<in> set (snd (retry_run st info target))"
  show "num_retries s \<le> max_retries s \<and> max_retries s = max_retries info"
  proof (cases "0 \<le> num_retries info \<and> 0 \<le> max_retries info")
    case True
    obtain r infos where loop: "retry_loop st target 0 info = (r, infos)"
      by (cases "retry_loop st target 0 info")
    with True s have "s \<in> set infos" by (simp add: retry_run_def)
    from retry_loop_invariant[OF loop inv this] show ?thesis .
  next
    case False
    with s have "s = info" by (auto simp: retry_run_def split: if_splits)
    with inv show ?thesis by simp
  qed
  qed
qed

theorem num_retries_le_max_retries_witness:
  "0 \<le> (2::int) \<and>
   num_retries (new_SubtaskExecutionInfo ''numa-0'' ''sv'' 2)
     \<le> max_retries (new_SubtaskExecutionInfo ''numa-0'' ''sv'' 2) \<and>
   snd (retry_run scenario_subtask (new_SubtaskExecutionInfo ''numa-0'' ''sv'' 2)
         (\<lambda>i. Inl (Exc MarsError ''peer'' []) :: exc + unit)) =
     [new_SubtaskExecutionInfo ''numa-0'' ''sv'' 2,
      (new_SubtaskExecutionInfo ''numa-0'' ''sv'' 2)\<lparr>num_retries := 1\<rparr>,
      (new_SubtaskExecutionInfo ''numa-0'' ''sv'' 2)\<lparr>num_retries := 2\<rparr>] \<and>
   num_retries ((new_SubtaskExecutionInfo ''numa-0'' ''sv'' 2)\<lparr>num_retries := 2\<rparr>)
     \<le> max_retries ((new_SubtaskExecutionInfo ''numa-0'' ''sv'' 2)\<lparr>num_retries := 2\<rparr>)"
proof -
  let ?I = "new_SubtaskExecutionInfo ''numa-0'' ''sv'' 2"
  let ?T = "\<lambda>i::nat. Inl (Exc MarsError ''peer'' []) :: exc + unit"
  have run: "snd (retry_run scenario_subtask ?I ?T) =
     [?I, ?I\<lparr>num_retries := 1\<rparr>, ?I\<lparr>num_retries := 2\<rparr>]"
    by (simp add: retry_run_def new_SubtaskExecutionInfo_def
        is_OSError_or_MarsError_def wrap_exception_def scenario_subtask_def)
  note inst = num_retries_le_max_retries[of 2 "''numa-0''" "''sv''" ?I scenario_subtask ?T]
  from inst have base: "num_retries ?I \<le> max_retries ?I" by simp
  with inst have "\<forall>s \<in> set (snd (retry_run scenario_subtask ?I ?T)).
      num_retries s \<le> max_retries s \<and> max_retries s = max_retries ?I" by blast
  then have "num_retries (?I\<lparr>num_retries := 2\<rparr>) \<le> max_retries (?I\<lparr>num_retries := 2\<rparr>)"
    unfolding run by simp
  with base run show ?thesis by simp
qed

text \<open>
  The claim C8 as written fails: \<open>run_subtask\<close> stores the configured
  \<open>subtask_max_retries\<close> as it comes, and for \<open>-1\<close> the entry has \<open>num_retries = 0\<close> above
  \<open>max_retries = -1\<close> from its creation on; \<open>_retry_run\<close> then fails its assertion and
  leaves the entry as it is.
\<close>

theorem num_retries_above_negative_max_retries:
  "num_retries (new_SubtaskExecutionInfo ''numa-0'' ''sv'' (- 1)) = 0 \<and>
   max_retries (new_SubtaskExecutionInfo ''numa-0'' ''sv'' (- 1)) = - 1 \<and>
   \<not> num_retries (new_SubtaskExecutionInfo ''numa-0'' ''sv'' (- 1))
       \<le> max_retries (new_SubtaskExecutionInfo ''numa-0'' ''sv'' (- 1)) \<and>
   retry_run scenario_subtask (new_SubtaskExecutionInfo ''numa-0'' ''sv'' (- 1))
       (\<lambda>i. Inr () :: exc + unit) =
     (Inl (Exc AssertionError [] []), [new_SubtaskExecutionInfo ''numa-0'' ''sv'' (- 1)])"
  by (simp add: new_SubtaskExecutionInfo_def retry_run_def)

section \<open>Properties of the result capture\<close>

text \<open>
  Claim C5. With a current exception \<open>e\<close> and traceback \<open>tb\<close>,
  \<open>_fill_subtask_result_with_exception\<close> unwraps an \<open>ExecutionError\<close> to its
  \<open>nested_error\<close> and takes that error's traceback; the status is cancelled when the
  (unwrapped) exception is a cancellation and errored otherwise; progress is 1; error
  and traceback are set. Every other field of the result is kept.
\<close>

theorem fill_subtask_result_with_exception_populates:
  "(is_ExecutionError e \<longrightarrow>
      (\<exists>n. nested_error e = Some n \<and>
        result (fill_subtask_result_with_exception st info (Some (e, tb))) =
          (result info)\<lparr>status := (if is_CancelledError n then cancelled else errored),
             progress := 1, error := Some n, traceback := Some (traceback_of n)\<rparr>)) \<and>
   (\<not> is_ExecutionError e \<longrightarrow>
      result (fill_subtask_result_with_exception st info (Some (e, tb))) =
        (result info)\<lparr>status := (if is_CancelledError e then cancelled else errored),
           progress := 1, error := Some e, traceback := Some tb\<rparr>)"
proof (cases "is_ExecutionError e")
  case True
  then have "\<exists>n. nested_error e = Some n"
    by (induction e) auto
  then obtain n where "nested_error e = Some n" ..
  with True show ?thesis
    by (simp add: fill_subtask_result_with_exception_def)
next
  case False
  then show ?thesis
    by (simp add: fill_subtask_result_with_exception_def)
qed

theorem fill_subtask_result_with_exception_populates_witness:
  "is_ExecutionError (ExecutionError (Exc OtherException ''boom'' [''frame-1'']) [''frame-0'']) \<and>
   result (fill_subtask_result_with_exception scenario_subtask
             (new_SubtaskExecutionInfo ''numa-0'' ''sv'' 0)
             (Some (ExecutionError (Exc OtherException ''boom'' [''frame-1'']) [''frame-0''],
                    [''frame-0'']))) =
     \<lparr>status = errored, progress = 1, error = Some (Exc OtherException ''boom'' [''frame-1'']),
      traceback = Some [''frame-1''], data_size = None\<rparr>"
  using fill_subtask_result_with_exception_populates
    [of "ExecutionError (Exc OtherException ''boom'' [''frame-1'']) [''frame-0'']"
        scenario_subtask "new_SubtaskExecutionInfo ''numa-0'' ''sv'' 0" "[''frame-0'']"]
  by (simp add: new_SubtaskExecutionInfo_def new_SubtaskResult_def is_CancelledError_def)

section \<open>Properties of the coordinator\<close>

lemma run_subtask_once_try_acquired:
  assumes "request_batch_quota env = Inr u" and "\<not> cancelling_after_quota env"
    and "acquire_free_slot env = Inr s"
  shows "\<exists>r aiotask t info'.
     run_subtask_once_try env st band req info = (r, Some s, aiotask,
        RequestBatchQuota req # AcquireFreeSlot (session_id st, subtask_id st) # t, info') \<and>
     (\<forall>e \<in> set t. \<not> is_release e) \<and> slot_id info' = Some s"
  using assms by (auto simp: run_subtask_once_try_def)

lemma on_CancelledError_no_release: "\<forall>e \<in> set (on_CancelledError env band slot aiotask). \<not> is_release e"
  by (auto simp: on_CancelledError_def split: sum.splits)

lemma on_OSError_or_MarsError_no_release:
  "\<forall>e \<in> set (snd (on_OSError_or_MarsError env slot ex)). \<not> is_release e"
  by (auto simp: on_OSError_or_MarsError_def split: sum.splits)

lemma run_subtask_once_except_no_release:
  "\<forall>e \<in> set (snd (run_subtask_once_except env band slot aiotask r)). \<not> is_release e"
  using on_CancelledError_no_release[of env band slot aiotask]
    on_OSError_or_MarsError_no_release[of env slot]
  by (simp add: run_subtask_once_except_def split: sum.splits)

lemma run_subtask_once_finally_slot:
  "snd (run_subtask_once_finally env st req (Some s)) =
     ReleaseFreeSlot s (session_id st, subtask_id st) #
       (case release_free_slot env of Inl e \<Rightarrow> [] | Inr u \<Rightarrow> [ReleaseQuotas (map fst req)])"
  by (simp add: run_subtask_once_finally_def split: sum.splits)

text \<open>
  The calls of a run in which a slot is acquired (the quota is granted, the first
  cancel check passes and \<open>acquire_free_slot\<close> returns \<open>s\<close>). On every exit of the
  \<^verbatim>\<open>try\<close> block, be it a return, an error or a cancellation, and whatever the handlers
  do, the \<^verbatim>\<open>finally\<close> block calls \<open>release_free_slot\<close> for \<open>s\<close>, and no release comes
  before it. \<open>release_quotas\<close> follows as the last call when \<open>release_free_slot\<close>
  returns; when it raises, it is the last call and the quota is kept.
\<close>

lemma run_subtask_once_releases:
  assumes "request_batch_quota env = Inr u" and "\<not> cancelling_after_quota env"
    and "acquire_free_slot env = Inr s"
  shows "\<exists>mid. fst (snd (run_subtask_once env st band req info)) =
       RequestBatchQuota req # AcquireFreeSlot (session_id st, subtask_id st) # mid @
         ReleaseFreeSlot s (session_id st, subtask_id st) #
           (case release_free_slot env of
              Inl e \<Rightarrow> [] | Inr u' \<Rightarrow> [ReleaseQuotas (map fst req)]) \<and>
     (\<forall>e \<in> set mid. \<not> is_release e)"
proof -
  from run_subtask_once_try_acquired[OF assms(1-3), of st band req info]
  obtain r aiotask t info' where
    tr: "run_subtask_once_try env st band req info = (r, Some s, aiotask,
        RequestBatchQuota req # AcquireFreeSlot (session_id st, subtask_id st) # t, info')"
    and t: "\<forall>e \<in> set t. \<not> is_release e" by blast
  define th where "th = snd (run_subtask_once_except env band (Some s) aiotask r)"
  have th: "\<forall>e \<in> set th. \<not> is_release e"
    unfolding th_def by (rule run_subtask_once_except_no_release)
  have "fst (snd (run_subtask_once env st band req info)) =
      (RequestBatchQuota req # AcquireFreeSlot (session_id st, subtask_id st) # t) @ th @
         snd (run_subtask_once_finally env st req (Some s))"
    unfolding run_subtask_once_def tr th_def
    by (simp split: prod.splits option.splits)
  then have "fst (snd (run_subtask_once env st band req info)) =
      RequestBatchQuota req # AcquireFreeSlot (session_id st, subtask_id st) # (t @ th) @
         ReleaseFreeSlot s (session_id st, subtask_id st) #
           (case release_free_slot env of
              Inl e \<Rightarrow> [] | Inr u' \<Rightarrow> [ReleaseQuotas (map fst req)])"
    by (simp add: run_subtask_once_finally_slot)
  moreover have "\<forall>e \<in> set (t @ th). \<not> is_release e" using t th by auto
  ultimately show ?thesis by blast
qed

lemma run_subtask_once_releases_scenario:
  "request_batch_quota happy_env = Inr () \<and> \<not> cancelling_after_quota happy_env \<and>
   acquire_free_slot happy_env = Inr 7 \<and> release_free_slot happy_env = Inr () \<and>
   (\<exists>mid. fst (snd (run_subtask_once happy_env scenario_subtask ''numa-0''
                       [((''sess'', ''S''), 200)] (new_SubtaskExecutionInfo ''numa-0'' ''sv'' 0))) =
       RequestBatchQuota [((''sess'', ''S''), 200)] # AcquireFreeSlot (''sess'', ''S'') # mid @
         [ReleaseFreeSlot 7 (''sess'', ''S''), ReleaseQuotas [(''sess'', ''S'')]] \<and>
     list_all (\<lambda>e. \<not> is_release e) mid)"
proof -
  have h1: "request_batch_quota happy_env = Inr ()" and h2: "\<not> cancelling_after_quota happy_env"
    and h3: "acquire_free_slot happy_env = Inr 7" and h4: "release_free_slot happy_env = Inr ()"
    by (simp_all add: happy_env_def)
  from run_subtask_once_releases[OF h1 h2 h3, of scenario_subtask "''numa-0''"
      "[((''sess'', ''S''), 200)]" "new_SubtaskExecutionInfo ''numa-0'' ''sv'' 0"]
  show ?thesis using h1 h2 h3 h4 by (simp add: scenario_subtask_def list_all_iff)
qed

text \<open>
  Claim C1. The \<^verbatim>\<open>finally\<close> block of \<open>_run_subtask_once\<close> awaits \<open>release_free_slot\<close>
  and then \<open>release_quotas\<close>, one after the other, with nothing that guards the second
  against the first. In this run the quota for \<open>(sess, S)\<close> is granted, slot 7 is
  acquired, the run in the slot returns, and the cancellation of the coordinating task
  is delivered while \<open>release_free_slot\<close> is awaited: that call is the last one made,
  and \<open>release_quotas\<close> is never called, where the claim has the quota released on
  every exit.
\<close>

theorem run_subtask_once_quota_not_released:
  "acquire_free_slot cancelled_in_release_env = Inr 7 \<and>
   fst (snd (run_subtask_once cancelled_in_release_env scenario_subtask ''numa-0''
               [((''sess'', ''S''), 200)] (new_SubtaskExecutionInfo ''numa-0'' ''sv'' 0))) =
     [RequestBatchQuota [((''sess'', ''S''), 200)], AcquireFreeSlot (''sess'', ''S''),
      RunSubtaskInSlot ''numa-0'' 7, ReleaseFreeSlot 7 (''sess'', ''S'')] \<and>
   ReleaseQuotas [(''sess'', ''S'')] \<notin>
     set (fst (snd (run_subtask_once cancelled_in_release_env scenario_subtask ''numa-0''
               [((''sess'', ''S''), 200)] (new_SubtaskExecutionInfo ''numa-0'' ''sv'' 0))))"
  by (simp add: cancelled_in_release_env_def happy_env_def run_subtask_once_def
      run_subtask_once_try_def run_subtask_once_except_def run_subtask_once_finally_def
      scenario_subtask_def)

lemma run_subtask_once_one_request:
  "length (filter is_RequestBatchQuota (fst (snd (run_subtask_once env st band req info)))) = 1"
proof -
  have a: "length (filter is_RequestBatchQuota
              (fst (snd (snd (snd (run_subtask_once_try env st band req info)))))) = 1"
    by (simp add: run_subtask_once_try_def split: sum.splits)
  have b: "filter is_RequestBatchQuota (snd (run_subtask_once_except env band slot aiotask r)) = []"
    for slot aiotask r
    by (simp add: run_subtask_once_except_def on_CancelledError_def on_OSError_or_MarsError_def
        split: sum.splits)
  have c: "filter is_RequestBatchQuota (snd (run_subtask_once_finally env st req slot)) = []"
    for slot
    by (simp add: run_subtask_once_finally_def split: sum.splits option.splits)
  obtain r slot aiotask t info' where
    tr: "run_subtask_once_try env st band req info = (r, slot, aiotask, t, info')"
    by (metis prod_cases5)
  have "fst (snd (run_subtask_once env st band req info)) =
      t @ snd (run_subtask_once_except env band slot aiotask r) @
        snd (run_subtask_once_finally env st req slot)"
    unfolding run_subtask_once_def tr by (simp split: prod.splits option.splits)
  then show ?thesis using a b c tr by simp
qed

text \<open>
  Claim C6, as amended. For a subtask with \<open>retryable = False\<close>, once the first lines
  of \<open>_retry_run_subtask\<close> are passed (the two actor reference lookups and the lookup
  of \<open>subtask_info\<close> return, and both assertions, \<open>num_retries \<ge> 0\<close> and
  \<open>max_retries \<ge> 0\<close>, hold), \<open>_run_subtask_once\<close> is attempted exactly once (the calls
  made are those of the one attempt, with a single quota request). What it returns is
  returned. An error that is an instance of \<^verbatim>\<open>Exception\<close> is raised wrapped as
  \<open>_UnretryableException\<close>, with a message that lists, in graph order, the operand of
  every chunk whose \<open>retryable\<close> attribute is false, and no other operand. An error
  that is no \<^verbatim>\<open>Exception\<close>, a cancellation above all, is raised as it is: the handler is
  \<^verbatim>\<open>except Exception\<close>.
\<close>

theorem retry_run_subtask_unretryable:
  assumes "preamble = Inr u" and "0 \<le> num_retries info" and "0 \<le> max_retries info"
    and "\<not> retryable st"
  shows "retry_run_subtask preamble envs st band req info =
      (case fst (run_subtask_once (envs 0) st band req info) of
         Inr v \<Rightarrow> Inr v
       | Inl e \<Rightarrow>
           if is_Exception e
           then Inl (wrap_exception e ''_UnretryableException''
                  (UnretryableMsg (subtask_id st)
                     (map op (filter (\<lambda>chunk. op_retryable (op chunk) = Some False)
                                (nodes (chunk_graph st))))))
           else Inl e,
       snd (run_subtask_once (envs 0) st band req info)) \<and>
     length (filter is_RequestBatchQuota
               (fst (snd (retry_run_subtask preamble envs st band req info)))) = 1"
proof -
  have eq: "retry_run_subtask preamble envs st band req info =
      (case fst (run_subtask_once (envs 0) st band req info) of
         Inr v \<Rightarrow> Inr v
       | Inl e \<Rightarrow>
           if is_Exception e
           then Inl (wrap_exception e ''_UnretryableException''
                  (UnretryableMsg (subtask_id st)
                     (map op (filter (\<lambda>chunk. op_retryable (op chunk) = Some False)
                                (nodes (chunk_graph st))))))
           else Inl e,
       snd (run_subtask_once (envs 0) st band req info))"
    using assms by (simp add: retry_run_subtask_def split: sum.splits prod.splits)
  show ?thesis unfolding eq using run_subtask_once_one_request[of "envs 0" st band req info]
    by simp
qed

theorem retry_run_subtask_unretryable_witness:
  "(Inr () :: exc + unit) = Inr () \<and>
   0 \<le> num_retries (new_SubtaskExecutionInfo ''numa-0'' ''sv'' 0) \<and>
   0 \<le> max_retries (new_SubtaskExecutionInfo ''numa-0'' ''sv'' 0) \<and>
   \<not> retryable unretryable_subtask \<and>
   fst (retry_run_subtask (Inr ()) (\<lambda>i. run_fails_env) unretryable_subtask ''numa-0''
          [((''sess'', ''S''), 200)] (new_SubtaskExecutionInfo ''numa-0'' ''sv'' 0)) =
     Inl (Wrapped ''_UnretryableException'' (Exc OSError ''conn reset'' [])
            (UnretryableMsg ''S''
               [\<lparr>op_key = ''op-B'', op_type = Compute, outputs = [''B''],
                 op_retryable = Some False\<rparr>])) \<and>
   length (filter is_RequestBatchQuota
             (fst (snd (retry_run_subtask (Inr ()) (\<lambda>i. run_fails_env) unretryable_subtask
                          ''numa-0'' [((''sess'', ''S''), 200)]
                          (new_SubtaskExecutionInfo ''numa-0'' ''sv'' 0))))) = 1"
proof -
  let ?I = "new_SubtaskExecutionInfo ''numa-0'' ''sv'' 0"
  have h1: "(Inr () :: exc + unit) = Inr ()" by simp
  have h2: "0 \<le> num_retries ?I" and h3: "0 \<le> max_retries ?I"
    by (simp_all add: new_SubtaskExecutionInfo_def)
  have h4: "\<not> retryable unretryable_subtask" by (simp add: unretryable_subtask_def)
  have once: "fst (run_subtask_once run_fails_env unretryable_subtask ''numa-0''
                     [((''sess'', ''S''), 200)] ?I) = Inl (Exc OSError ''conn reset'' [])"
    by (simp add: run_fails_env_def happy_env_def run_subtask_once_def
        run_subtask_once_try_def run_subtask_once_except_def run_subtask_once_finally_def
        on_OSError_or_MarsError_def is_CancelledError_def is_OSError_or_MarsError_def)
  have ops: "map op (filter (\<lambda>chunk. op_retryable (op chunk) = Some False)
                     (nodes (chunk_graph unretryable_subtask))) =
      [\<lparr>op_key = ''op-B'', op_type = Compute, outputs = [''B''], op_retryable = Some False\<rparr>]"
    by (simp add: unretryable_subtask_def graph_A_B_def fetch_A_def compute_B_def)
  have sid: "subtask_id unretryable_subtask = ''S''" by (simp add: unretryable_subtask_def)
  have exn: "is_Exception (Exc OSError ''conn reset'' [])" by (simp add: is_Exception_def)
  note inst = retry_run_subtask_unretryable[OF h1 h2 h3 h4, of "\<lambda>i. run_fails_env" "''numa-0''"
      "[((''sess'', ''S''), 200)]", unfolded once ops sid]
  from inst have a: "fst (retry_run_subtask (Inr ()) (\<lambda>i. run_fails_env) unretryable_subtask
        ''numa-0'' [((''sess'', ''S''), 200)] ?I) =
     Inl (Wrapped ''_UnretryableException'' (Exc OSError ''conn reset'' [])
            (UnretryableMsg ''S''
               [\<lparr>op_key = ''op-B'', op_type = Compute, outputs = [''B''],
                 op_retryable = Some False\<rparr>]))"
    using exn by (simp add: wrap_exception_def)
  from inst have b: "length (filter is_RequestBatchQuota
             (fst (snd (retry_run_subtask (Inr ()) (\<lambda>i. run_fails_env) unretryable_subtask
                          ''numa-0'' [((''sess'', ''S''), 200)] ?I)))) = 1"
    by blast
  show ?thesis using h2 h3 h4 a b by simp
qed

text \<open>
  The claim C6 as written fails in three ways, each on the subtask of scenario 4, which
  is not retryable. On a cancellation the one attempt raises \<open>CancelledError\<close> and
  \<open>_retry_run_subtask\<close> raises that same error, not a wrapper. When an actor reference
  lookup raises, no attempt is made (no call at all) and the error of the lookup is
  raised as it is. When the configured \<open>subtask_max_retries\<close> is \<open>-1\<close>, the second
  assertion fails: no attempt is made and an \<open>AssertionError\<close> is raised as it is.
\<close>

theorem retry_run_subtask_not_wrapped:
  "\<not> retryable unretryable_subtask \<and>
   fst (retry_run_subtask (Inr ()) (\<lambda>i. cancelling_env) unretryable_subtask ''numa-0''
          [((''sess'', ''S''), 200)] (new_SubtaskExecutionInfo ''numa-0'' ''sv'' 0)) =
     Inl (Exc CancelledError [] []) \<and>
   retry_run_subtask (Inl (Exc MarsError ''actor not found'' [])) (\<lambda>i. run_fails_env)
       unretryable_subtask ''numa-0'' [((''sess'', ''S''), 200)]
       (new_SubtaskExecutionInfo ''numa-0'' ''sv'' 0) =
     (Inl (Exc MarsError ''actor not found'' []), [],
      new_SubtaskExecutionInfo ''numa-0'' ''sv'' 0) \<and>
   retry_run_subtask (Inr ()) (\<lambda>i. run_fails_env) unretryable_subtask ''numa-0''
       [((''sess'', ''S''), 200)] (new_SubtaskExecutionInfo ''numa-0'' ''sv'' (- 1)) =
     (Inl (Exc AssertionError [] []), [], new_SubtaskExecutionInfo ''numa-0'' ''sv'' (- 1))"
proof -
  have a: "\<not> retryable unretryable_subtask" by (simp add: unretryable_subtask_def)
  have b: "fst (retry_run_subtask (Inr ()) (\<lambda>i. cancelling_env) unretryable_subtask ''numa-0''
          [((''sess'', ''S''), 200)] (new_SubtaskExecutionInfo ''numa-0'' ''sv'' 0)) =
     Inl (Exc CancelledError [] [])"
    by (simp add: retry_run_subtask_def unretryable_subtask_def new_SubtaskExecutionInfo_def
        cancelling_env_def happy_env_def run_subtask_once_def run_subtask_once_try_def
        run_subtask_once_except_def run_subtask_once_finally_def on_CancelledError_def
        raised_CancelledError_def is_CancelledError_def is_Exception_def)
  have c: "retry_run_subtask (Inl (Exc MarsError ''actor not found'' [])) (\<lambda>i. run_fails_env)
       unretryable_subtask ''numa-0'' [((''sess'', ''S''), 200)]
       (new_SubtaskExecutionInfo ''numa-0'' ''sv'' 0) =
     (Inl (Exc MarsError ''actor not found'' []), [],
      new_SubtaskExecutionInfo ''numa-0'' ''sv'' 0)"
    by (simp add: retry_run_subtask_def)
  have d: "retry_run_subtask (Inr ()) (\<lambda>i. run_fails_env) unretryable_subtask ''numa-0''
       [((''sess'', ''S''), 200)] (new_SubtaskExecutionInfo ''numa-0'' ''sv'' (- 1)) =
     (Inl (Exc AssertionError [] []), [], new_SubtaskExecutionInfo ''numa-0'' ''sv'' (- 1))"
    by (simp add: retry_run_subtask_def new_SubtaskExecutionInfo_def)
  from a b c d show ?thesis by blast
qed

section \<open>Properties of the processor\<close>

lemma store_meta_loop_data_size:
  "store_meta_loop band dss dms doi umc rcs (ms, ws, n) = Inr (ms', ws', n') \<Longrightarrow>
     n' = n + sum_list (map (\<lambda>rc. case map_of dms (StrKey (key rc)) of
                                       Some memory_size \<Rightarrow> memory_size | None \<Rightarrow> 0)
                          (filter (\<lambda>rc. StrKey (key rc) \<in> set (map fst dss)) rcs))"
proof (induction rcs arbitrary: ms ws n)
  case Nil
  then show ?case by simp
next
  case (Cons rc rcs)
  from Cons.prems obtain ss m n1 oref where
    sz: "result_chunk_sizes dss dms doi (key rc) n = Inr (ss, m, n1, oref)"
    and rest: "store_meta_loop band dss dms doi umc rcs
        (ms @ [SetChunkMeta rc m ss [band] (key rc) oref],
         ws @ (if rc \<in> umc then [WorkerSetChunkMeta rc m ss [band] (key rc)] else []), n1)
       = Inr (ms', ws', n')"
    by (auto split: sum.splits)
  have n1: "n1 = n + (if StrKey (key rc) \<in> set (map fst dss)
                      then (case map_of dms (StrKey (key rc)) of Some x \<Rightarrow> x | None \<Rightarrow> 0)
                      else 0)"
    using sz by (auto simp: result_chunk_sizes_def Let_def split: if_splits option.splits)
  from Cons.IH[OF rest] n1 show ?case by simp
qed

text \<open>
  Claim C3, as amended. After a successful \<open>_store_meta\<close>, \<open>result.data_size\<close> is the sum
  of the memory sizes of the result chunks of the optimized chunk graph that were stored
  directly (those whose key is a key of \<open>data_key_to_store_size\<close>). The memory sizes of
  the mapper keys of a shuffle mapper result chunk are not part of that sum.
\<close>

theorem store_meta_data_size:
  assumes "store_meta published band g dss dms doi umc res = (Inr u, calls, res')"
  shows "data_size res' =
     Some (sum_list (map (\<lambda>rc. case map_of dms (StrKey (key rc)) of
                                   Some memory_size \<Rightarrow> memory_size | None \<Rightarrow> 0)
                       (filter (\<lambda>rc. StrKey (key rc) \<in> set (map fst dss)) (result_chunks g))))"
proof -
  from assms obtain ms ws n where
    loop: "store_meta_loop band dss dms doi umc (result_chunks g) ([], [], 0) = Inr (ms, ws, n)"
    and res': "data_size res' = Some n"
    by (auto simp: store_meta_def split: sum.splits if_splits)
  from store_meta_loop_data_size[OF loop] res' show ?thesis by simp
qed

theorem store_meta_data_size_witness:
  "store_meta (Inr ()) (''w1'', ''numa-0'') graph_A_B stored_B_store_size
       stored_B_memory_size stored_B_object_id {compute_B} new_SubtaskResult =
     (Inr (),
      [WorkerSetChunkMeta compute_B 250 150 [(''w1'', ''numa-0'')] ''B'',
       SetChunkMeta compute_B 250 150 [(''w1'', ''numa-0'')] ''B'' (ObjectId ''obj-B'')],
      new_SubtaskResult\<lparr>data_size := Some 250\<rparr>) \<and>
   data_size (new_SubtaskResult\<lparr>data_size := Some 250\<rparr>) = Some 250"
proof -
  have run: "store_meta (Inr ()) (''w1'', ''numa-0'') graph_A_B stored_B_store_size
       stored_B_memory_size stored_B_object_id {compute_B} new_SubtaskResult =
     (Inr (),
      [WorkerSetChunkMeta compute_B 250 150 [(''w1'', ''numa-0'')] ''B'',
       SetChunkMeta compute_B 250 150 [(''w1'', ''numa-0'')] ''B'' (ObjectId ''obj-B'')],
      new_SubtaskResult\<lparr>data_size := Some 250\<rparr>)"
    by (simp add: store_meta_def result_chunk_sizes_def graph_A_B_def compute_B_def
        stored_B_store_size_def stored_B_memory_size_def stored_B_object_id_def)
  from store_meta_data_size[OF run] run show ?thesis by simp
qed

text \<open>
  The claim C3 as written fails: for a mapper result chunk whose two mapper keys have
  memory sizes 20 and 40, \<open>result.data_size\<close> is 0 after a successful \<open>_store_meta\<close>,
  where the claim gives 60.
\<close>

theorem store_meta_mapper_chunk_not_counted:
  "store_meta (Inr ()) (''w1'', ''numa-0'') graph_A_B mapper_B_store_size
       mapper_B_memory_size mapper_B_object_id {compute_B} new_SubtaskResult =
     (Inr (),
      [WorkerSetChunkMeta compute_B 60 40 [(''w1'', ''numa-0'')] ''B'',
       SetChunkMeta compute_B 60 40 [(''w1'', ''numa-0'')] ''B''
         (ObjectIds [''obj-B0'', ''obj-B1''])],
      new_SubtaskResult\<lparr>data_size := Some 0\<rparr>) \<and>
   claimed_result_data_size graph_A_B mapper_B_store_size mapper_B_memory_size = 60"
  by (simp add: store_meta_def result_chunk_sizes_def graph_A_B_def compute_B_def
      mapper_B_store_size_def mapper_B_memory_size_def mapper_B_object_id_def
      get_mapper_data_keys_def claimed_result_data_size_def)

lemma unpin_requests_append: "unpin_requests (a @ b) = unpin_requests a @ unpin_requests b"
  by (induction a rule: unpin_requests.induct) auto

lemma unpin_data_no_invocation: "filter is_UnpinData (snd (unpin_data env ks)) = []"
  by (simp add: unpin_data_def Let_def split: sum.splits)

lemma unpin_data_requests_cases:
  "unpin_requests (snd (unpin_data env ks)) =
     (if filter (\<lambda>k. \<not> is_tuple k) ks \<noteq> [] \<and> (\<exists>e. unpin_batch env = Inl e)
      then map (\<lambda>k. (k, False)) (filter (\<lambda>k. \<not> is_tuple k) ks)
      else map (\<lambda>k. (k, False)) (filter (\<lambda>k. \<not> is_tuple k) ks) @
           map (\<lambda>k. (k, True)) (filter is_tuple ks))"
  by (auto simp: unpin_data_def Let_def split: sum.splits)

lemma unpin_data_request_keys_failed:
  "filter (\<lambda>k. \<not> is_tuple k) ks \<noteq> [] \<Longrightarrow> unpin_batch env = Inl e \<Longrightarrow>
     map fst (unpin_requests (snd (unpin_data env ks))) = filter (\<lambda>k. \<not> is_tuple k) ks"
  unfolding unpin_data_requests_cases by (simp add: comp_def)

lemma unpin_data_request_keys_all:
  "filter (\<lambda>k. \<not> is_tuple k) ks = [] \<or> unpin_batch env = Inr u \<Longrightarrow>
     map fst (unpin_requests (snd (unpin_data env ks))) =
       filter (\<lambda>k. \<not> is_tuple k) ks @ filter is_tuple ks"
  unfolding unpin_data_requests_cases by (auto simp: comp_def)

lemma mset_partition_tuple:
  "mset (filter (\<lambda>k. \<not> is_tuple k) ks) + mset (filter is_tuple ks) = mset ks"
  by (induction ks) auto

lemma run_try_events:
  assumes "optimize env = Inr u" and "load_input_data env = Inr input_keys"
  shows "\<exists>r rest res. run_try env band g umc res0 =
       (r, Some input_keys, True,
        [LoadInputData, ExecuteGraph, UnpinData input_keys] @ snd (unpin_data env input_keys)
          @ rest, res) \<and>
     filter is_UnpinData rest = [] \<and> unpin_requests rest = []"
proof -
  obtain ru tu where ud: "unpin_data env input_keys = (ru, tu)" by (cases "unpin_data env input_keys")
  show ?thesis
  proof (cases ru)
    case (Inl e)
    with assms ud show ?thesis by (simp add: run_try_def)
  next
    case (Inr u1)
    show ?thesis
    proof (cases "execute_graph env")
      case (Inl e)
      with assms ud Inr show ?thesis by (simp add: run_try_def)
    next
      case ex: (Inr u2)
      show ?thesis
      proof (cases "store_data env")
        case (Inl e)
        with assms ud Inr ex show ?thesis by (simp add: run_try_def)
      next
        case sd: (Inr stored)
        obtain sk ss ms oi where stored: "stored = (sk, ss, ms, oi)" by (cases stored)
        obtain r calls res' where
          sm: "store_meta (set_chunks_meta env) band g ss ms oi umc res0 = (r, calls, res')"
          by (cases "store_meta (set_chunks_meta env) band g ss ms oi umc res0")
        from assms ud Inr ex sd stored sm show ?thesis by (simp add: run_try_def)
      qed
    qed
  qed
qed

lemma run_events:
  assumes "optimize env = Inr u" and "load_input_data env = Inr input_keys"
  shows "\<exists>rest. fst (snd (run env band g umc res0)) =
       [LoadInputData, ExecuteGraph, UnpinData input_keys] @ snd (unpin_data env input_keys)
          @ rest \<and>
     filter is_UnpinData rest = [] \<and> unpin_requests rest = []"
proof -
  from run_try_events[OF assms, of band g umc "res0\<lparr>status := running\<rparr>"]
  obtain r rest res where
    tr: "run_try env band g umc (res0\<lparr>status := running\<rparr>) =
       (r, Some input_keys, True,
        [LoadInputData, ExecuteGraph, UnpinData input_keys] @ snd (unpin_data env input_keys)
          @ rest, res)"
    and rest: "filter is_UnpinData rest = []" "unpin_requests rest = []" by blast
  have "fst (snd (run env band g umc res0)) =
       [LoadInputData, ExecuteGraph, UnpinData input_keys] @ snd (unpin_data env input_keys)
          @ rest"
    unfolding run_def tr by (simp split: sum.splits)
  with rest show ?thesis by blast
qed

text \<open>
  When \<open>_load_input_data\<close> returns the list \<open>input_keys\<close>, then whatever
  \<open>_execute_graph\<close>, the unpin batches, \<open>_store_data\<close>, \<open>_store_meta\<close> and the reporter do
  (return, raise, be cancelled), \<open>run\<close> invokes \<open>_unpin_data\<close> exactly once, with exactly
  \<open>input_keys\<close>. No key is handed to the storage API for unpinning more often than it
  occurs in \<open>input_keys\<close>; a tuple key goes with \<^verbatim>\<open>error="ignore"\<close> and a plain key
  without; and every key is handed over when the batch of the plain keys returns or is
  empty (\<open>_unpin_data\<close> awaits the batch of the shuffle keys after it).
\<close>

lemma run_unpins_input_keys_once:
  assumes "optimize env = Inr u" and "load_input_data env = Inr input_keys"
  shows "filter is_UnpinData (fst (snd (run env band g umc res0))) = [UnpinData input_keys] \<and>
     mset (map fst (unpin_requests (fst (snd (run env band g umc res0))))) \<subseteq># mset input_keys \<and>
     list_all (\<lambda>(k, ignore). ignore = is_tuple k)
       (unpin_requests (fst (snd (run env band g umc res0)))) \<and>
     ((\<exists>u'. unpin_batch env = Inr u') \<or> filter (\<lambda>k. \<not> is_tuple k) input_keys = [] \<longrightarrow>
        mset (map fst (unpin_requests (fst (snd (run env band g umc res0))))) = mset input_keys)"
proof -
  from run_events[OF assms, of band g umc res0] obtain rest where
    ev: "fst (snd (run env band g umc res0)) =
       [LoadInputData, ExecuteGraph, UnpinData input_keys] @ snd (unpin_data env input_keys)
          @ rest"
    and rest: "filter is_UnpinData rest = []" "unpin_requests rest = []" by blast
  have inv: "filter is_UnpinData (fst (snd (run env band g umc res0))) = [UnpinData input_keys]"
    unfolding ev using rest unpin_data_no_invocation[of env input_keys] by simp
  have req: "unpin_requests (fst (snd (run env band g umc res0))) =
      unpin_requests (snd (unpin_data env input_keys))"
    unfolding ev using rest by (simp add: unpin_requests_append)
  note part = mset_partition_tuple[of input_keys]
  have sub: "mset (map fst (unpin_requests (snd (unpin_data env input_keys)))) \<subseteq># mset input_keys"
  proof (cases "filter (\<lambda>k. \<not> is_tuple k) input_keys = []")
    case True
    from unpin_data_request_keys_all[of input_keys env, OF disjI1, OF True]
    show ?thesis using part by simp
  next
    case False
    show ?thesis
    proof (cases "unpin_batch env")
      case (Inl e)
      from unpin_data_request_keys_failed[OF False Inl]
      show ?thesis using part by (metis mset_subset_eq_add_left)
    next
      case (Inr u1)
      from unpin_data_request_keys_all[of input_keys env, OF disjI2, OF Inr]
      show ?thesis using part by simp
    qed
  qed
  have flags: "list_all (\<lambda>(k, ignore). ignore = is_tuple k)
       (unpin_requests (snd (unpin_data env input_keys)))"
    by (auto simp: unpin_data_requests_cases list_all_iff)
  have full: "(\<exists>u'. unpin_batch env = Inr u') \<or> filter (\<lambda>k. \<not> is_tuple k) input_keys = [] \<longrightarrow>
        mset (map fst (unpin_requests (snd (unpin_data env input_keys)))) = mset input_keys"
  proof
    assume "(\<exists>u'. unpin_batch env = Inr u') \<or> filter (\<lambda>k. \<not> is_tuple k) input_keys = []"
    then obtain u' where "filter (\<lambda>k. \<not> is_tuple k) input_keys = [] \<or> unpin_batch env = Inr u'"
      by blast
    from unpin_data_request_keys_all[OF this]
    show "mset (map fst (unpin_requests (snd (unpin_data env input_keys)))) = mset input_keys"
      using part by simp
  qed
  show ?thesis using inv sub flags full unfolding req by blast
qed

lemma run_unpins_input_keys_once_scenario:
  "optimize cancelled_run_env = Inr () \<and>
   load_input_data cancelled_run_env = Inr [StrKey ''A'', TupleKey ''M'' [0]] \<and>
   run cancelled_run_env (''w1'', ''numa-0'') graph_A_B {compute_B} new_SubtaskResult =
     (Inl (Exc CancelledError [] []),
      [LoadInputData, ExecuteGraph, UnpinData [StrKey ''A'', TupleKey ''M'' [0]],
       UnpinBatch [(StrKey ''A'', False)], UnpinBatch [(TupleKey ''M'' [0], True)]],
      new_SubtaskResult\<lparr>status := cancelled, progress := 1\<rparr>) \<and>
   filter is_UnpinData
     (fst (snd (run cancelled_run_env (''w1'', ''numa-0'') graph_A_B {compute_B}
                  new_SubtaskResult))) = [UnpinData [StrKey ''A'', TupleKey ''M'' [0]]] \<and>
   mset (map fst (unpin_requests
     (fst (snd (run cancelled_run_env (''w1'', ''numa-0'') graph_A_B {compute_B}
                  new_SubtaskResult))))) = mset [StrKey ''A'', TupleKey ''M'' [0]]"
proof -
  have h1: "optimize cancelled_run_env = Inr ()"
    and h2: "load_input_data cancelled_run_env = Inr [StrKey ''A'', TupleKey ''M'' [0]]"
    and h3: "unpin_batch cancelled_run_env = Inr ()"
    by (simp_all add: cancelled_run_env_def)
  have r: "run cancelled_run_env (''w1'', ''numa-0'') graph_A_B {compute_B} new_SubtaskResult =
     (Inl (Exc CancelledError [] []),
      [LoadInputData, ExecuteGraph, UnpinData [StrKey ''A'', TupleKey ''M'' [0]],
       UnpinBatch [(StrKey ''A'', False)], UnpinBatch [(TupleKey ''M'' [0], True)]],
      new_SubtaskResult\<lparr>status := cancelled, progress := 1\<rparr>)"
    by (simp add: run_def run_try_def unpin_data_def cancelled_run_env_def
        is_CancelledError_def new_SubtaskResult_def)
  from run_unpins_input_keys_once[OF h1 h2, of "(''w1'', ''numa-0'')" graph_A_B "{compute_B}"
      new_SubtaskResult] h3
  have "filter is_UnpinData
     (fst (snd (run cancelled_run_env (''w1'', ''numa-0'') graph_A_B {compute_B}
                  new_SubtaskResult))) = [UnpinData [StrKey ''A'', TupleKey ''M'' [0]]]"
    and "mset (map fst (unpin_requests
     (fst (snd (run cancelled_run_env (''w1'', ''numa-0'') graph_A_B {compute_B}
                  new_SubtaskResult))))) = mset [StrKey ''A'', TupleKey ''M'' [0]]"
    by blast+
  with h1 h2 r show ?thesis by blast
qed

text \<open>
  Claim C4. \<open>_unpin_data\<close> awaits the batch of the plain keys and then the batch of the
  shuffle keys, one after the other. In this run \<open>_load_input_data\<close> returns the plain
  key \<open>A\<close> and the shuffle key \<open>(M, 0)\<close>, the graph executes, and the cancellation is
  delivered while the batch of the plain keys is awaited: \<open>_unpin_data\<close> is invoked
  once, with both keys, and \<open>run\<close> ends cancelled, but the unpin of \<open>(M, 0)\<close> is never
  handed to the storage API, where the claim has no key skipped on any exit.
\<close>

theorem run_shuffle_key_not_unpinned:
  "load_input_data cancelled_in_unpin_env = Inr [StrKey ''A'', TupleKey ''M'' [0]] \<and>
   run cancelled_in_unpin_env (''w1'', ''numa-0'') graph_A_B {compute_B} new_SubtaskResult =
     (Inl (Exc CancelledError [] []),
      [LoadInputData, ExecuteGraph, UnpinData [StrKey ''A'', TupleKey ''M'' [0]],
       UnpinBatch [(StrKey ''A'', False)]],
      new_SubtaskResult\<lparr>status := cancelled, progress := 1\<rparr>) \<and>
   TupleKey ''M'' [0] \<notin>
     set (map fst (unpin_requests
       (fst (snd (run cancelled_in_unpin_env (''w1'', ''numa-0'') graph_A_B {compute_B}
                    new_SubtaskResult)))))"
proof -
  have r: "run cancelled_in_unpin_env (''w1'', ''numa-0'') graph_A_B {compute_B}
       new_SubtaskResult =
     (Inl (Exc CancelledError [] []),
      [LoadInputData, ExecuteGraph, UnpinData [StrKey ''A'', TupleKey ''M'' [0]],
       UnpinBatch [(StrKey ''A'', False)]],
      new_SubtaskResult\<lparr>status := cancelled, progress := 1\<rparr>)"
    by (simp add: run_def run_try_def unpin_data_def cancelled_in_unpin_env_def
        cancelled_run_env_def is_CancelledError_def new_SubtaskResult_def)
  show ?thesis unfolding r by (simp add: cancelled_in_unpin_env_def cancelled_run_env_def)
qed




text \<open>
  A reporter that has failed makes \<open>run\<close> fail after the result is complete: the
  pipeline succeeds, \<open>self.result\<close> is succeeded, and \<open>run\<close> raises the reporter's error.
\<close>

lemma run_raises_reporter_error:
  "run failed_reporter_env (''w1'', ''numa-0'') (chunk_graph fetch_only_subtask) {}
       new_SubtaskResult =
     (Inl raised_ZeroDivisionError,
      [LoadInputData, ExecuteGraph, UnpinData [StrKey ''A''], UnpinBatch [(StrKey ''A'', False)],
       StoreData, StoreMeta []],
      \<lparr>status = succeeded, progress = 1, error = None, traceback = None,
       data_size = Some 0\<rparr>)"
  by (simp add: run_def run_try_def unpin_data_def store_meta_def failed_reporter_env_def
      fetch_only_subtask_def processor_done_def new_SubtaskResult_def
      raised_ZeroDivisionError_def is_CancelledError_def)

section \<open>Properties of the memory estimator\<close>

text \<open>The running peak never goes down: the loop only takes a maximum with it.\<close>

lemma visit_predecessors_max:
  "visit_predecessors g ks s = Inr s' \<Longrightarrow> max_memory_cost s' = max_memory_cost s"
proof (induction ks arbitrary: s)
  case Nil
  then show ?case by simp
next
  case (Cons k ks)
  from Cons.prems show ?case
    by (auto split: option.splits if_splits sum.splits prod.splits simp: Let_def
        dest!: Cons.IH)
qed

lemma estimate_step_max:
  assumes "estimate_step estimate_size g opg s = Inr s'"
  shows "max_memory_cost s \<le> max_memory_cost s'"
proof -
  from assms obtain s1 ks where
    vp: "visit_predecessors g ks s1 = Inr s'"
    and s1: "max_memory_cost s \<le> max_memory_cost s1"
    by (auto simp: estimate_step_def Let_def split: sum.splits option.splits prod.splits)
  from visit_predecessors_max[OF vp] s1 show ?thesis by simp
qed

lemma estimate_loop_max:
  "estimate_loop estimate_size g opg s = Inr s' \<Longrightarrow> max_memory_cost s \<le> max_memory_cost s'"
proof (induction estimate_size g opg s rule: estimate_loop.induct)
  case (1 estimate_size g opg s)
  note eq = estimate_loop.simps[of estimate_size g opg s]
  show ?case
  proof (cases "key_stack s = []")
    case True
    with "1.prems" eq show ?thesis by simp
  next
    case False
    with "1.prems" eq obtain s1 where
      step: "estimate_step estimate_size g opg s = Inr s1"
      and rest: "estimate_loop estimate_size g opg s1 = Inr s'"
      by (auto split: sum.splits)
    from "1.IH"[OF False step rest] estimate_step_max[OF step] show ?thesis by simp
  qed
qed

lemma peak_at_least_initial:
  assumes "estimate_sizes estimate_size st input_sizes = Inr (store_size, peak)"
  shows "sum_list (map (\<lambda>(k, store_size, calc_size). calc_size) (AList.clearjunk input_sizes))
           \<le> peak"
proof -
  from assms obtain s0 s where
    loop: "estimate_loop estimate_size (chunk_graph st) (condense st) s0 = Inr s"
    and s0: "max_memory_cost s0 =
       sum_list (map (\<lambda>(k, store_size, calc_size). calc_size) (AList.clearjunk input_sizes))"
    and peak: "peak = max_memory_cost s"
    by (auto simp: estimate_sizes_def Let_def split: sum.splits)
  from estimate_loop_max[OF loop] s0 peak show ?thesis by simp
qed





lemma clearjunk_double_memory_cost:
  "AList.clearjunk (double_memory_cost input_sizes) =
     double_memory_cost (AList.clearjunk input_sizes)"
  by (simp add: double_memory_cost_def AList.clearjunk_map_ran)

lemma sum_double_memory_cost:
  "sum_list (map (\<lambda>(k, store_size, calc_size). calc_size) (double_memory_cost al)) =
     2 * sum_list (map (\<lambda>(k, store_size, calc_size). calc_size) al)"
  by (induction al) (auto simp: double_memory_cost_def AList.map_ran_def)

text \<open>
  Claim C7, as amended. When the memory-cost component of every entry of \<open>input_sizes\<close>
  is doubled and the graph is left as it is, the peak memory cost \<open>_estimate_sizes\<close>
  returns is at least twice the sum of the memory-cost components of the original
  entries.
\<close>

theorem estimate_sizes_doubled_input:
  assumes "estimate_sizes estimate_size st (double_memory_cost input_sizes) =
             Inr (store_size', peak')"
  shows "2 * sum_list (map (\<lambda>(k, store_size, calc_size). calc_size)
                         (AList.clearjunk input_sizes)) \<le> peak'"
  using peak_at_least_initial[OF assms]
  by (simp add: clearjunk_double_memory_cost sum_double_memory_cost)

theorem estimate_sizes_doubled_input_witness:
  "estimate_sizes estimate_size_B subtask_A_B (double_memory_cost [(''A'', (100, 200))]) =
     Inr (150, 650) \<and>
   2 * sum_list (map (\<lambda>(k, store_size, calc_size). calc_size)
                   (AList.clearjunk [(''A'', (100 :: int, 200 :: int))])) \<le> 650"
proof -
  have run: "estimate_sizes estimate_size_B subtask_A_B
               (double_memory_cost [(''A'', (100, 200))]) = Inr (150, 650)"
    by code_simp
  note inst = estimate_sizes_doubled_input[OF run]
  from run inst show ?thesis by (intro conjI)
qed

text \<open>
  The claim C7 as written fails: on the graph \<open>A \<rightarrow> B\<close> with input sizes
  \<open>{A: (100, 200)}\<close> the peak is \<open>200 + 250 = 450\<close>; with \<open>{A: (100, 400)}\<close> it is
  \<open>400 + 250 = 650\<close>, less than twice 450: the estimate for the output of \<open>B\<close> does not
  grow with the memory cost of the input.
\<close>

theorem estimate_sizes_peak_not_doubled:
  "estimate_sizes estimate_size_B subtask_A_B [(''A'', (100, 200))] = Inr (150, 450) \<and>
   estimate_sizes estimate_size_B subtask_A_B (double_memory_cost [(''A'', (100, 200))]) =
     Inr (150, 650) \<and>
   \<not> (2 * 450 \<le> (650 :: int))"
proof -
  have a: "estimate_sizes estimate_size_B subtask_A_B [(''A'', (100, 200))] = Inr (150, 450)"
    by code_simp
  have b: "estimate_sizes estimate_size_B subtask_A_B
             (double_memory_cost [(''A'', (100, 200))]) = Inr (150, 650)"
    by code_simp
  have c: "\<not> (2 * 450 \<le> (650 :: int))" by simp
  from a b c show ?thesis by (intro conjI)
qed

end
